theory Spec2Isabelle
  imports Complex_Main "HOL-Library.Word"
begin

unbundle bit_operations_syntax

section \<open>Conventions of the embedding\<close>

text \<open>
  The C++ sources \<^verbatim>\<open>City.h\<close> and \<^verbatim>\<open>City.cpp\<close> are embedded function by function.
  \<^item> A finite \<^verbatim>\<open>double\<close> is the \<^typ>\<open>real\<close> number it denotes. Where the result of a
    property depends on it, the arithmetic of the source is rounded: the methods of
    \<^verbatim>\<open>Rect\<close>, \<^verbatim>\<open>insetRect\<close> and the distance search of the summary round every operation
    to the nearest double (\<open>fl\<close>, ties to even, with gradual underflow), one operation at a
    time as the source is written, and the distance search treats a sum of squares above
    \<^verbatim>\<open>DBL_MAX\<close> as infinite. The remaining arithmetic (box corners, heights, road offsets)
    is exact real arithmetic, and \<^verbatim>\<open>static_cast<float>\<close> is the identity.
  \<^item> \<^verbatim>\<open>int\<close> heights are \<^typ>\<open>int\<close> (they are only compared and converted), \<^verbatim>\<open>std::size_t\<close>
    counters are \<^typ>\<open>nat\<close> (they count objects held in memory), and \<^verbatim>\<open>std::uint32_t\<close>
    is \<^typ>\<open>32 word\<close>, so that the narrowing casts of the source wrap around.
  \<^item> An output stream is the list of records written to it; a stream that fails to
    open makes the export return \<^const>\<open>None\<close>.
\<close>

section \<open>Double arithmetic\<close>

text \<open>
  Rounding to the nearest double, ties to even: \<open>rne\<close> rounds a real to the nearest
  integer, taking the even one at a tie; \<open>bexp x\<close> is the binary exponent of \<open>x\<close>
  (\<open>2 ^ bexp x \<le> |x| < 2 ^ (bexp x + 1)\<close>), \<open>ulp x\<close> the spacing of the doubles around \<open>x\<close>
  (53 significant bits, and never less than \<open>2 ^ - 1074\<close>, the spacing of the subnormal
  doubles below \<open>2 ^ - 1022\<close>), and \<open>fl x\<close> the multiple of \<open>ulp x\<close> nearest to \<open>x\<close>, with the
  sign of \<open>x\<close>. Upwards the exponent is not limited by \<open>fl\<close>: a result above \<^verbatim>\<open>DBL_MAX\<close>,
  the largest finite double \<^verbatim>\<open>std::numeric_limits<double>::max()\<close>, stands for an overflow
  and is treated where it can occur. A \<open>double\<close> is a real that rounding leaves unchanged
  and that does not exceed \<^verbatim>\<open>DBL_MAX\<close> in magnitude; every double lies \<open>on_grid\<close>, that
  is, it is a multiple of \<open>2 ^ - 1074\<close>.
\<close>

definition rne :: "real \<Rightarrow> int" where
  "rne y =
     (let f = \<lfloor>y\<rfloor>; d = y - of_int f
      in if d < 1/2 then f else if 1/2 < d then f + 1 else if even f then f else f + 1)"

definition bexp :: "real \<Rightarrow> int" where
  "bexp x = \<lfloor>log 2 \<bar>x\<bar>\<rfloor>"

definition ulp :: "real \<Rightarrow> real" where
  "ulp x = 2 powr of_int (max (bexp x) (- 1022) - 52)"

definition fl :: "real \<Rightarrow> real" where
  "fl x = sgn x * (of_int (rne (\<bar>x\<bar> / ulp x)) * ulp x)"

definition DBL_MAX :: real where
  "DBL_MAX = (2 ^ 53 - 1) * 2 ^ 971"

definition double :: "real \<Rightarrow> bool" where
  "double x = (fl x = x \<and> \<bar>x\<bar> \<le> DBL_MAX)"

definition on_grid :: "real \<Rightarrow> bool" where
  "on_grid x = (\<exists>n::int. x = of_int n * 2 powr (- 1074))"

section \<open>Data model (City.h)\<close>

datatype ZoneType = NoneZ | Residential | Commercial | Industrial | Green

datatype FacilityType = Hospital | School

record Facility =
  fac_x :: real
  fac_y :: real
  fac_type :: FacilityType

record Rect =
  x0 :: real
  y0 :: real
  x1 :: real
  y1 :: real

text \<open>The methods of \<^verbatim>\<open>Rect\<close>; each operation on doubles is rounded.\<close>

definition width :: "Rect \<Rightarrow> real" where
  "width r = fl (x1 r - x0 r)"

definition height :: "Rect \<Rightarrow> real" where
  "height r = fl (y1 r - y0 r)"

definition centreX :: "Rect \<Rightarrow> real" where
  "centreX r = fl (fl (x0 r + x1 r) * 0.5)"

definition centreY :: "Rect \<Rightarrow> real" where
  "centreY r = fl (fl (y0 r + y1 r) * 0.5)"

text \<open>The fields of a \<^verbatim>\<open>Rect\<close> in memory are doubles.\<close>

definition rect_doubles :: "Rect \<Rightarrow> bool" where
  "rect_doubles r = (double (x0 r) \<and> double (y0 r) \<and> double (x1 r) \<and> double (y1 r))"

record Building =
  footprint :: Rect
  zone :: ZoneType
  height_b :: int
  facility :: bool
  facilityType :: FacilityType

datatype RoadType = Arterial | Secondary | Local

record RoadSegment =
  seg_x1 :: real
  seg_y1 :: real
  seg_x2 :: real
  seg_y2 :: real
  seg_type :: RoadType

fun roadWidth :: "RoadType \<Rightarrow> real" where
  "roadWidth Arterial = 1.6"
| "roadWidth Secondary = 1.2"
| "roadWidth Local = 0.8"

record City =
  size_c :: int
  zones :: "ZoneType list"
  buildings :: "Building list"
  facilities :: "Facility list"
  roads :: "RoadSegment list"
  blocks :: "Rect list"

section \<open>Geometry helpers (City.cpp, anonymous namespace)\<close>

text \<open>
  \<^verbatim>\<open>std::clamp(v, lo, hi)\<close> as the standard's reference implementation writes it:
  \<^verbatim>\<open>(v < lo) ? lo : (hi < v) ? hi : v\<close>. The C++ standard leaves the call undefined
  when \<open>hi < lo\<close>; no property below depends on the value in that case.
\<close>

definition clamp_std :: "real \<Rightarrow> real \<Rightarrow> real \<Rightarrow> real" where
  "clamp_std v lo hi = (if v < lo then lo else if hi < v then hi else v)"

text \<open>
  \<^verbatim>\<open>insetRect\<close>, with every operation rounded; the literal \<^verbatim>\<open>0.49\<close> is the double
  nearest to it. \<open>maxInset\<close> and \<open>appliedInset\<close> are the two local values of the source.
\<close>

definition maxInset :: "Rect \<Rightarrow> real" where
  "maxInset r = fl (min (width r) (height r) * fl 0.49)"

definition appliedInset :: "Rect \<Rightarrow> real \<Rightarrow> real" where
  "appliedInset r inset = clamp_std inset 0.0 (maxInset r)"

definition insetRect :: "Rect \<Rightarrow> real \<Rightarrow> Rect" where
  "insetRect r inset =
     (let applied = appliedInset r inset
      in r\<lparr>x0 := fl (x0 r + applied), x1 := fl (x1 r - applied),
            y0 := fl (y0 r + applied), y1 := fl (y1 r - applied)\<rparr>)"

text \<open>
  \<^verbatim>\<open>std::string::find_last_of\<close>: the position of the last character of \<open>s\<close> that occurs
  in \<open>chars\<close>, \<^const>\<open>None\<close> for \<^verbatim>\<open>npos\<close>.
\<close>

definition find_last_of :: "string \<Rightarrow> string \<Rightarrow> nat option" where
  "find_last_of chars s =
     (case filter (\<lambda>i. s ! i \<in> set chars) (rev [0..<length s]) of
        [] \<Rightarrow> None
      | i # _ \<Rightarrow> Some i)"

definition filenameOnly :: "string \<Rightarrow> string" where
  "filenameOnly path =
     (case find_last_of [CHR ''/'', CHR 0x5C] path of
        None \<Rightarrow> path
      | Some pos \<Rightarrow> drop (pos + 1) path)"

definition replaceExtension :: "string \<Rightarrow> string \<Rightarrow> string" where
  "replaceExtension path ext =
     (let slash = find_last_of [CHR ''/'', CHR 0x5C] path;
          dot = find_last_of [CHR ''.''] path;
          dot' = (case dot of
                    None \<Rightarrow> length path
                  | Some d \<Rightarrow> (case slash of
                                None \<Rightarrow> d
                              | Some sl \<Rightarrow> if d < sl then length path else d))
      in take dot' path @ ext)"

fun materialForZone :: "ZoneType \<Rightarrow> string" where
  "materialForZone Commercial = ''mat_commercial''"
| "materialForZone Residential = ''mat_residential''"
| "materialForZone Industrial = ''mat_industrial''"
| "materialForZone Green = ''mat_green''"
| "materialForZone NoneZ = ''mat_default''"

definition kRoadThickness :: real where
  "kRoadThickness = 0.05"

section \<open>Text export (writePrism, writeRectPrism, City::saveOBJ)\<close>

text \<open>
  The text stream is the list of its lines: the \<^verbatim>\<open>mtllib\<close> and \<^verbatim>\<open>usemtl\<close> directives,
  vertex lines \<^verbatim>\<open>v x y z\<close> and face lines \<^verbatim>\<open>f i j k\<close>. The exporter's state is the stream
  together with the running counter \<^verbatim>\<open>vertexOffset\<close>.
\<close>

datatype obj_line = Mtllib string | Usemtl string | V real real real | F nat nat nat

type_synonym obj_state = "obj_line list \<times> nat"

fun writePrism ::
  "real \<times> real \<Rightarrow> real \<times> real \<Rightarrow> real \<times> real \<Rightarrow> real \<times> real \<Rightarrow> real \<Rightarrow> real
     \<Rightarrow> obj_state \<Rightarrow> obj_state" where
  "writePrism b0 b1 b2 b3 baseZ topZ (ofs, vertexOffset) =
     (let v = vertexOffset in
      (ofs @
       [V (fst b0) (snd b0) baseZ,
        V (fst b1) (snd b1) baseZ,
        V (fst b2) (snd b2) baseZ,
        V (fst b3) (snd b3) baseZ,
        V (fst b0) (snd b0) topZ,
        V (fst b1) (snd b1) topZ,
        V (fst b2) (snd b2) topZ,
        V (fst b3) (snd b3) topZ,
        F v (v + 1) (v + 2),
        F v (v + 2) (v + 3),
        F (v + 4) (v + 7) (v + 6),
        F (v + 4) (v + 6) (v + 5),
        F v (v + 4) (v + 5),
        F v (v + 5) (v + 1),
        F (v + 1) (v + 5) (v + 6),
        F (v + 1) (v + 6) (v + 2),
        F (v + 2) (v + 6) (v + 7),
        F (v + 2) (v + 7) (v + 3),
        F (v + 3) (v + 7) (v + 4),
        F (v + 3) (v + 4) v],
       vertexOffset + 8))"

definition writeRectPrism :: "Rect \<Rightarrow> real \<Rightarrow> real \<Rightarrow> obj_state \<Rightarrow> obj_state" where
  "writeRectPrism r baseZ topZ st =
     writePrism (x0 r, y0 r) (x1 r, y0 r) (x1 r, y1 r) (x0 r, y1 r) baseZ topZ st"

fun usemtl :: "string \<Rightarrow> obj_state \<Rightarrow> obj_state" where
  "usemtl m (ofs, vertexOffset) = (ofs @ [Usemtl m], vertexOffset)"

definition emitStandard_obj :: "Building \<Rightarrow> obj_state \<Rightarrow> obj_state" where
  "emitStandard_obj b st =
     (let h = max 1.0 (real_of_int (height_b b))
      in writeRectPrism (footprint b) 0.0 h st)"

definition emitPark_obj :: "Rect \<Rightarrow> obj_state \<Rightarrow> obj_state" where
  "emitPark_obj fp st =
     (let margin = min (width fp) (height fp) * 0.08;
          lawn = insetRect fp margin;
          padHeight = 0.08;
          st = writeRectPrism lawn 0.0 padHeight st;
          baseSize = min (width lawn) (height lawn) * 0.2;
          planterSize = clamp_std baseSize 0.2 (min (width lawn) (height lawn) * 0.45);
          planterA = \<lparr>x0 = x0 lawn, y0 = y0 lawn,
                      x1 = x0 lawn + planterSize, y1 = y0 lawn + planterSize\<rparr>;
          planterB = \<lparr>x0 = x1 lawn - planterSize, y0 = y1 lawn - planterSize,
                      x1 = x1 lawn, y1 = y1 lawn\<rparr>;
          planterHeight = padHeight * 2.5;
          st = writeRectPrism planterA padHeight (padHeight + planterHeight) st
      in writeRectPrism planterB padHeight (padHeight + planterHeight) st)"

definition emitSchool_obj :: "Building \<Rightarrow> obj_state \<Rightarrow> obj_state" where
  "emitSchool_obj b st =
     (let fp = footprint b;
          w = width fp;
          h = height fp;
          field = insetRect fp (min w h * 0.07);
          fieldHeight = 0.05;
          st = writeRectPrism field 0.0 fieldHeight st;
          wide = (w \<ge> h);
          buildingW = (if wide then w * 0.45 else w * 0.6);
          buildingH = (if wide then h * 0.6 else h * 0.45);
          bx0 = x0 fp + w * 0.08;
          by0 = y0 fp + h * (if wide then 0.2 else 0.08);
          buildingRect = \<lparr>x0 = bx0, y0 = by0, x1 = bx0 + buildingW, y1 = by0 + buildingH\<rparr>;
          maxX = x1 fp - w * 0.05;
          maxY = y1 fp - h * 0.05;
          buildingRect =
            (if x1 buildingRect > maxX
             then (let shift = x1 buildingRect - maxX
                   in buildingRect\<lparr>x0 := x0 buildingRect - shift,
                                     x1 := x1 buildingRect - shift\<rparr>)
             else buildingRect);
          buildingRect =
            (if y1 buildingRect > maxY
             then (let shift = y1 buildingRect - maxY
                   in buildingRect\<lparr>y0 := y0 buildingRect - shift,
                                     y1 := y1 buildingRect - shift\<rparr>)
             else buildingRect);
          schoolHeight = max 2.0 (real_of_int (height_b b))
      in writeRectPrism buildingRect 0.0 schoolHeight st)"

definition emitHospital_obj :: "Building \<Rightarrow> obj_state \<Rightarrow> obj_state" where
  "emitHospital_obj b st =
     (let fp = footprint b;
          w = width fp;
          h = height fp;
          podium = insetRect fp (min w h * 0.08);
          podiumTop = max 1.2 (real_of_int (height_b b) * 0.25);
          st = writeRectPrism podium 0.0 podiumTop st;
          cx = centreX fp;
          cy = centreY fp;
          wide = (w \<ge> h);
          mainW = (if wide then w * 0.7 else w * 0.45);
          mainH = (if wide then h * 0.45 else h * 0.7);
          main = \<lparr>x0 = cx - mainW * 0.5, y0 = cy - mainH * 0.5,
                  x1 = cx + mainW * 0.5, y1 = cy + mainH * 0.5\<rparr>;
          mainTop = max (podiumTop + 2.0) (real_of_int (height_b b));
          st = writeRectPrism main podiumTop mainTop st;
          wingW = (if wide then w * 0.28 else w * 0.85);
          wingH = (if wide then h * 0.85 else h * 0.28);
          wing = \<lparr>x0 = cx - wingW * 0.5, y0 = cy - wingH * 0.5,
                  x1 = cx + wingW * 0.5, y1 = cy + wingH * 0.5\<rparr>;
          wingTop = max (podiumTop + 1.2) (mainTop * 0.9)
      in writeRectPrism wing podiumTop wingTop st)"

text \<open>The body of the loop over \<^verbatim>\<open>buildings\<close>.\<close>

definition obj_building :: "Building \<Rightarrow> obj_state \<Rightarrow> obj_state" where
  "obj_building b st =
     (if zone b = NoneZ then st
      else if zone b = Green
        then emitPark_obj (footprint b) (usemtl (materialForZone (zone b)) st)
      else if facility b
        then (let st = usemtl (materialForZone (zone b)) st
              in if facilityType b = Hospital then emitHospital_obj b st
                 else emitSchool_obj b st)
      else emitStandard_obj b (usemtl (materialForZone (zone b)) st))"

text \<open>The body of the loop over \<^verbatim>\<open>roads\<close>.\<close>

definition obj_road :: "RoadSegment \<Rightarrow> obj_state \<Rightarrow> obj_state" where
  "obj_road road st =
     (let st = usemtl ''mat_road'' st;
          dx = seg_x2 road - seg_x1 road;
          dy = seg_y2 road - seg_y1 road;
          len = sqrt (dx * dx + dy * dy)
      in if len < 0.000001 then st
         else
          (let invLen = 1.0 / len;
               nx = - dy * invLen;
               ny = dx * invLen;
               halfWidth = 0.5 * roadWidth (seg_type road);
               hx = nx * halfWidth;
               hy = ny * halfWidth
           in writePrism (seg_x1 road + hx, seg_y1 road + hy)
                         (seg_x1 road - hx, seg_y1 road - hy)
                         (seg_x2 road - hx, seg_y2 road - hy)
                         (seg_x2 road + hx, seg_y2 road + hy)
                         0.0 kRoadThickness st))"

text \<open>
  \<^verbatim>\<open>City::saveOBJ\<close>. \<open>mtl_ok\<close> is the result of \<^verbatim>\<open>writeMaterialsFile\<close> and \<open>ofs_ok\<close> tells
  whether the output stream opened. The result is the stream written and the final value
  of \<^verbatim>\<open>vertexOffset\<close>.
\<close>

definition saveOBJ :: "bool \<Rightarrow> bool \<Rightarrow> string \<Rightarrow> City \<Rightarrow> obj_state option" where
  "saveOBJ mtl_ok ofs_ok filename c =
     (let mtlPath = replaceExtension filename ''.mtl'';
          hasMtl = mtl_ok;
          mtlName = filenameOnly mtlPath
      in if \<not> ofs_ok then None
         else
          (let ofs = (if hasMtl then [Mtllib mtlName] else []);
               vertexOffset = 1;
               st = fold obj_building (buildings c) (ofs, vertexOffset);
               st = fold obj_road (roads c) st
           in Some st))"

subsection \<open>Observations on the text stream\<close>

text \<open>
  The number of vertex lines and of face lines of a stream, and the check that every
  face line is written after a whole number of 8-vertex boxes and refers only to the
  8 vertices of the box written last: with \<open>n\<close> vertex lines before it, these are the
  1-based indices \<open>n - 7 .. n\<close>, that is, the interval from the first offset of the box
  to the value of the counter after it.
\<close>

fun vcount :: "obj_line list \<Rightarrow> nat" where
  "vcount [] = 0"
| "vcount (V a b c # ls) = Suc (vcount ls)"
| "vcount (l # ls) = vcount ls"

fun fcount :: "obj_line list \<Rightarrow> nat" where
  "fcount [] = 0"
| "fcount (F i j k # ls) = Suc (fcount ls)"
| "fcount (l # ls) = fcount ls"

fun faces_in_range :: "nat \<Rightarrow> obj_line list \<Rightarrow> bool" where
  "faces_in_range n [] = True"
| "faces_in_range n (V a b c # ls) = faces_in_range (Suc n) ls"
| "faces_in_range n (F i j k # ls) =
     (8 dvd n \<and> 1 \<le> i \<and> 1 \<le> j \<and> 1 \<le> k
      \<and> n - 7 \<le> i \<and> i < n + 1 \<and> n - 7 \<le> j \<and> j < n + 1 \<and> n - 7 \<le> k \<and> k < n + 1
      \<and> faces_in_range n ls)"
| "faces_in_range n (l # ls) = faces_in_range n ls"

definition obj_inv :: "obj_state \<Rightarrow> bool" where
  "obj_inv st =
     (snd st = 1 + vcount (fst st) \<and> 8 dvd vcount (fst st)
      \<and> 8 * fcount (fst st) = 12 * vcount (fst st)
      \<and> faces_in_range 0 (fst st))"

section \<open>Binary export: mesh accumulation (appendTriangle, appendRectPrism, City::saveGLTF)\<close>

record Vec3 =
  vx :: real
  vy :: real
  vz :: real

definition toGltfCoords :: "real \<Rightarrow> real \<Rightarrow> real \<Rightarrow> Vec3" where
  "toGltfCoords x y z = \<lparr>vx = x, vy = z, vz = y\<rparr>"

record MeshBuffer =
  positions :: "real list"
  normals :: "real list"
  indices :: "32 word list"
  hasBounds :: bool
  minPos :: "real \<times> real \<times> real"
  maxPos :: "real \<times> real \<times> real"

text \<open>A default-constructed \<^verbatim>\<open>MeshBuffer\<close>, as \<^verbatim>\<open>operator[]\<close> of the map creates it.\<close>

definition emptyMeshBuffer :: MeshBuffer where
  "emptyMeshBuffer =
     \<lparr>positions = [], normals = [], indices = [], hasBounds = False,
      minPos = (0, 0, 0), maxPos = (0, 0, 0)\<rparr>"

definition updateBounds :: "MeshBuffer \<Rightarrow> Vec3 \<Rightarrow> MeshBuffer" where
  "updateBounds buf p =
     (if \<not> hasBounds buf
      then buf\<lparr>minPos := (vx p, vy p, vz p), maxPos := (vx p, vy p, vz p), hasBounds := True\<rparr>
      else (case (minPos buf, maxPos buf) of
              ((mn0, mn1, mn2), (mx0, mx1, mx2)) \<Rightarrow>
                buf\<lparr>minPos := (min mn0 (vx p), min mn1 (vy p), min mn2 (vz p)),
                     maxPos := (max mx0 (vx p), max mx1 (vy p), max mx2 (vz p))\<rparr>))"

definition pushPos :: "Vec3 \<Rightarrow> MeshBuffer \<Rightarrow> MeshBuffer" where
  "pushPos p buf = updateBounds (buf\<lparr>positions := positions buf @ [vx p, vy p, vz p]\<rparr>) p"

definition pushNormal :: "Vec3 \<Rightarrow> MeshBuffer \<Rightarrow> MeshBuffer" where
  "pushNormal nn buf = buf\<lparr>normals := normals buf @ [vx nn, vy nn, vz nn]\<rparr>"

definition appendTriangle :: "MeshBuffer \<Rightarrow> Vec3 \<Rightarrow> Vec3 \<Rightarrow> Vec3 \<Rightarrow> Vec3 \<Rightarrow> MeshBuffer" where
  "appendTriangle buf p0 p1 p2 n =
     (let base = (word_of_nat (length (positions buf) div 3) :: 32 word);
          buf = pushPos p0 buf;
          buf = pushPos p1 buf;
          buf = pushPos p2 buf;
          buf = pushNormal n buf;
          buf = pushNormal n buf;
          buf = pushNormal n buf
      in buf\<lparr>indices := indices buf @ [base, base + 1, base + 2]\<rparr>)"

text \<open>
  The arguments of one \<^verbatim>\<open>appendTriangle\<close> call: three corners and the face normal.
  \<open>rectPrismTriangles\<close> lists the twelve calls of \<^verbatim>\<open>appendRectPrism\<close> in the order of the
  source, and \<open>appendRectPrism\<close> performs them on the buffer one after the other.
\<close>

record Triangle =
  tri_p0 :: Vec3
  tri_p1 :: Vec3
  tri_p2 :: Vec3
  tri_n :: Vec3

definition rectPrismTriangles :: "Rect \<Rightarrow> real \<Rightarrow> real \<Rightarrow> Triangle list" where
  "rectPrismTriangles r baseZ topZ =
     (let p0 = toGltfCoords (x0 r) (y0 r) baseZ;
          p1 = toGltfCoords (x1 r) (y0 r) baseZ;
          p2 = toGltfCoords (x1 r) (y1 r) baseZ;
          p3 = toGltfCoords (x0 r) (y1 r) baseZ;
          p4 = toGltfCoords (x0 r) (y0 r) topZ;
          p5 = toGltfCoords (x1 r) (y0 r) topZ;
          p6 = toGltfCoords (x1 r) (y1 r) topZ;
          p7 = toGltfCoords (x0 r) (y1 r) topZ;
          nDown = \<lparr>vx = 0.0, vy = -1.0, vz = 0.0\<rparr>;
          nUp = \<lparr>vx = 0.0, vy = 1.0, vz = 0.0\<rparr>;
          nPosX = \<lparr>vx = 1.0, vy = 0.0, vz = 0.0\<rparr>;
          nNegX = \<lparr>vx = -1.0, vy = 0.0, vz = 0.0\<rparr>;
          nPosZ = \<lparr>vx = 0.0, vy = 0.0, vz = 1.0\<rparr>;
          nNegZ = \<lparr>vx = 0.0, vy = 0.0, vz = -1.0\<rparr>
      in [\<lparr>tri_p0 = p0, tri_p1 = p2, tri_p2 = p1, tri_n = nDown\<rparr>,
          \<lparr>tri_p0 = p0, tri_p1 = p3, tri_p2 = p2, tri_n = nDown\<rparr>,
          \<lparr>tri_p0 = p4, tri_p1 = p5, tri_p2 = p6, tri_n = nUp\<rparr>,
          \<lparr>tri_p0 = p4, tri_p1 = p6, tri_p2 = p7, tri_n = nUp\<rparr>,
          \<lparr>tri_p0 = p1, tri_p1 = p2, tri_p2 = p6, tri_n = nPosX\<rparr>,
          \<lparr>tri_p0 = p1, tri_p1 = p6, tri_p2 = p5, tri_n = nPosX\<rparr>,
          \<lparr>tri_p0 = p3, tri_p1 = p0, tri_p2 = p4, tri_n = nNegX\<rparr>,
          \<lparr>tri_p0 = p3, tri_p1 = p4, tri_p2 = p7, tri_n = nNegX\<rparr>,
          \<lparr>tri_p0 = p2, tri_p1 = p3, tri_p2 = p7, tri_n = nPosZ\<rparr>,
          \<lparr>tri_p0 = p2, tri_p1 = p7, tri_p2 = p6, tri_n = nPosZ\<rparr>,
          \<lparr>tri_p0 = p0, tri_p1 = p1, tri_p2 = p5, tri_n = nNegZ\<rparr>,
          \<lparr>tri_p0 = p0, tri_p1 = p5, tri_p2 = p4, tri_n = nNegZ\<rparr>])"

definition appendRectPrism :: "MeshBuffer \<Rightarrow> Rect \<Rightarrow> real \<Rightarrow> real \<Rightarrow> MeshBuffer" where
  "appendRectPrism buf r baseZ topZ =
     fold (\<lambda>t buf. appendTriangle buf (tri_p0 t) (tri_p1 t) (tri_p2 t) (tri_n t))
          (rectPrismTriangles r baseZ topZ) buf"

text \<open>
  \<^verbatim>\<open>meshByMaterial\<close> is a map from material names to buffers. \<open>bufferFor\<close> reads the
  buffer of a material, default-constructed when the key is new, and \<open>appendRectPrismFor\<close>
  is the call \<^verbatim>\<open>appendRectPrism(bufferFor(mat), r, baseZ, topZ)\<close>, which stores the
  extended buffer under the key.
\<close>

type_synonym mesh_map = "string \<rightharpoonup> MeshBuffer"

definition bufferFor :: "mesh_map \<Rightarrow> string \<Rightarrow> MeshBuffer" where
  "bufferFor meshByMaterial mat =
     (case meshByMaterial mat of None \<Rightarrow> emptyMeshBuffer | Some buf \<Rightarrow> buf)"

definition appendRectPrismFor :: "string \<Rightarrow> Rect \<Rightarrow> real \<Rightarrow> real \<Rightarrow> mesh_map \<Rightarrow> mesh_map" where
  "appendRectPrismFor mat r baseZ topZ m =
     m(mat \<mapsto> appendRectPrism (bufferFor m mat) r baseZ topZ)"

definition emitStandard_gltf :: "Building \<Rightarrow> mesh_map \<Rightarrow> mesh_map" where
  "emitStandard_gltf b m =
     (let h = max 1.0 (real_of_int (height_b b))
      in appendRectPrismFor (materialForZone (zone b)) (footprint b) 0.0 h m)"

definition emitPark_gltf :: "Rect \<Rightarrow> mesh_map \<Rightarrow> mesh_map" where
  "emitPark_gltf fp m =
     (let margin = min (width fp) (height fp) * 0.08;
          lawn = insetRect fp margin;
          padHeight = 0.08;
          m = appendRectPrismFor ''mat_green'' lawn 0.0 padHeight m;
          baseSize = min (width lawn) (height lawn) * 0.2;
          planterSize = clamp_std baseSize 0.2 (min (width lawn) (height lawn) * 0.45);
          planterA = \<lparr>x0 = x0 lawn, y0 = y0 lawn,
                      x1 = x0 lawn + planterSize, y1 = y0 lawn + planterSize\<rparr>;
          planterB = \<lparr>x0 = x1 lawn - planterSize, y0 = y1 lawn - planterSize,
                      x1 = x1 lawn, y1 = y1 lawn\<rparr>;
          planterHeight = padHeight * 2.5;
          m = appendRectPrismFor ''mat_green'' planterA padHeight (padHeight + planterHeight) m
      in appendRectPrismFor ''mat_green'' planterB padHeight (padHeight + planterHeight) m)"

definition emitSchool_gltf :: "Building \<Rightarrow> mesh_map \<Rightarrow> mesh_map" where
  "emitSchool_gltf b m =
     (let fp = footprint b;
          w = width fp;
          h = height fp;
          field = insetRect fp (min w h * 0.07);
          fieldHeight = 0.05;
          m = appendRectPrismFor (materialForZone (zone b)) field 0.0 fieldHeight m;
          wide = (w \<ge> h);
          buildingW = (if wide then w * 0.45 else w * 0.6);
          buildingH = (if wide then h * 0.6 else h * 0.45);
          bx0 = x0 fp + w * 0.08;
          by0 = y0 fp + h * (if wide then 0.2 else 0.08);
          buildingRect = \<lparr>x0 = bx0, y0 = by0, x1 = bx0 + buildingW, y1 = by0 + buildingH\<rparr>;
          maxX = x1 fp - w * 0.05;
          maxY = y1 fp - h * 0.05;
          buildingRect =
            (if x1 buildingRect > maxX
             then (let shift = x1 buildingRect - maxX
                   in buildingRect\<lparr>x0 := x0 buildingRect - shift,
                                     x1 := x1 buildingRect - shift\<rparr>)
             else buildingRect);
          buildingRect =
            (if y1 buildingRect > maxY
             then (let shift = y1 buildingRect - maxY
                   in buildingRect\<lparr>y0 := y0 buildingRect - shift,
                                     y1 := y1 buildingRect - shift\<rparr>)
             else buildingRect);
          schoolHeight = max 2.0 (real_of_int (height_b b))
      in appendRectPrismFor (materialForZone (zone b)) buildingRect 0.0 schoolHeight m)"

definition emitHospital_gltf :: "Building \<Rightarrow> mesh_map \<Rightarrow> mesh_map" where
  "emitHospital_gltf b m =
     (let fp = footprint b;
          w = width fp;
          h = height fp;
          podium = insetRect fp (min w h * 0.08);
          podiumTop = max 1.2 (real_of_int (height_b b) * 0.25);
          m = appendRectPrismFor (materialForZone (zone b)) podium 0.0 podiumTop m;
          cx = centreX fp;
          cy = centreY fp;
          wide = (w \<ge> h);
          mainW = (if wide then w * 0.7 else w * 0.45);
          mainH = (if wide then h * 0.45 else h * 0.7);
          main = \<lparr>x0 = cx - mainW * 0.5, y0 = cy - mainH * 0.5,
                  x1 = cx + mainW * 0.5, y1 = cy + mainH * 0.5\<rparr>;
          mainTop = max (podiumTop + 2.0) (real_of_int (height_b b));
          m = appendRectPrismFor (materialForZone (zone b)) main podiumTop mainTop m;
          wingW = (if wide then w * 0.28 else w * 0.85);
          wingH = (if wide then h * 0.85 else h * 0.28);
          wing = \<lparr>x0 = cx - wingW * 0.5, y0 = cy - wingH * 0.5,
                  x1 = cx + wingW * 0.5, y1 = cy + wingH * 0.5\<rparr>;
          wingTop = max (podiumTop + 1.2) (mainTop * 0.9)
      in appendRectPrismFor (materialForZone (zone b)) wing podiumTop wingTop m)"

text \<open>The body of the loop over \<^verbatim>\<open>buildings\<close>.\<close>

definition gltf_building :: "Building \<Rightarrow> mesh_map \<Rightarrow> mesh_map" where
  "gltf_building b m =
     (if zone b = NoneZ then m
      else if zone b = Green then emitPark_gltf (footprint b) m
      else if facility b
        then (if facilityType b = Hospital then emitHospital_gltf b m
              else emitSchool_gltf b m)
      else emitStandard_gltf b m)"

text \<open>The body of the loop over \<^verbatim>\<open>roads\<close>.\<close>

definition gltf_road :: "RoadSegment \<Rightarrow> mesh_map \<Rightarrow> mesh_map" where
  "gltf_road road m =
     (let dx = seg_x2 road - seg_x1 road;
          dy = seg_y2 road - seg_y1 road;
          len = sqrt (dx * dx + dy * dy)
      in if len < 0.000001 then m
         else
          (let invLen = 1.0 / len;
               nx = - dy * invLen;
               ny = dx * invLen;
               halfWidth = 0.5 * roadWidth (seg_type road);
               hx = nx * halfWidth;
               hy = ny * halfWidth;
               base = \<lparr>x0 = seg_x1 road + hx, y0 = seg_y1 road + hy,
                       x1 = seg_x2 road - hx, y1 = seg_y2 road - hy\<rparr>;
               base = (if x0 base > x1 base then base\<lparr>x0 := x1 base, x1 := x0 base\<rparr> else base);
               base = (if y0 base > y1 base then base\<lparr>y0 := y1 base, y1 := y0 base\<rparr> else base)
           in appendRectPrismFor ''mat_road'' base 0.0 kRoadThickness m))"

text \<open>The two traversal loops of \<^verbatim>\<open>City::saveGLTF\<close>, starting from the empty map.\<close>

definition meshByMaterial :: "City \<Rightarrow> mesh_map" where
  "meshByMaterial c = fold gltf_road (roads c) (fold gltf_building (buildings c) Map.empty)"

subsection \<open>The material palette and the materials in use\<close>

record MaterialDef =
  mat_name :: string
  mat_r :: real
  mat_g :: real
  mat_b :: real
  mat_ks :: real
  mat_shininess :: real
  mat_metallic :: real
  mat_roughness :: real

definition kMaterialPalette :: "MaterialDef list" where
  "kMaterialPalette =
     [\<lparr>mat_name = ''mat_default'', mat_r = 0.7, mat_g = 0.7, mat_b = 0.7,
       mat_ks = 0.05, mat_shininess = 32.0, mat_metallic = 0.0, mat_roughness = 0.6\<rparr>,
      \<lparr>mat_name = ''mat_commercial'', mat_r = 0.6, mat_g = 0.65, mat_b = 0.72,
       mat_ks = 0.5, mat_shininess = 96.0, mat_metallic = 0.05, mat_roughness = 0.35\<rparr>,
      \<lparr>mat_name = ''mat_residential'', mat_r = 0.83, mat_g = 0.72, mat_b = 0.62,
       mat_ks = 0.08, mat_shininess = 48.0, mat_metallic = 0.0, mat_roughness = 0.55\<rparr>,
      \<lparr>mat_name = ''mat_industrial'', mat_r = 0.32, mat_g = 0.34, mat_b = 0.36,
       mat_ks = 0.04, mat_shininess = 24.0, mat_metallic = 0.02, mat_roughness = 0.75\<rparr>,
      \<lparr>mat_name = ''mat_green'', mat_r = 0.3, mat_g = 0.62, mat_b = 0.34,
       mat_ks = 0.02, mat_shininess = 12.0, mat_metallic = 0.0, mat_roughness = 0.7\<rparr>,
      \<lparr>mat_name = ''mat_road'', mat_r = 0.15, mat_g = 0.15, mat_b = 0.15,
       mat_ks = 0.02, mat_shininess = 12.0, mat_metallic = 0.0, mat_roughness = 0.8\<rparr>]"

text \<open>
  The loop that collects the used materials in palette order: a palette entry survives
  when the map holds a buffer under its name and that buffer has indices.
\<close>

definition materials :: "mesh_map \<Rightarrow> MaterialDef list" where
  "materials m =
     filter (\<lambda>d. case m (mat_name d) of None \<Rightarrow> False | Some buf \<Rightarrow> indices buf \<noteq> [])
            kMaterialPalette"


subsection \<open>Observations on road segments and geometry lines\<close>





subsection \<open>Observations on boxes and their face normals\<close>

text \<open>
  Dot product and difference of vectors, the centroid of a list of points, the eight
  corners of a box in the coordinates of the binary export, and the properties of a
  triangle's normal: unit length, and pointing away from a centre \<open>c\<close> as seen from
  each of the triangle's three corners. Two normals are compatible when they are equal,
  opposite or orthogonal.
\<close>

definition dot :: "Vec3 \<Rightarrow> Vec3 \<Rightarrow> real" where
  "dot a b = vx a * vx b + vy a * vy b + vz a * vz b"

definition vsub :: "Vec3 \<Rightarrow> Vec3 \<Rightarrow> Vec3" where
  "vsub a b = \<lparr>vx = vx a - vx b, vy = vy a - vy b, vz = vz a - vz b\<rparr>"

definition centroid :: "Vec3 list \<Rightarrow> Vec3" where
  "centroid ps =
     \<lparr>vx = sum_list (map vx ps) / real (length ps),
      vy = sum_list (map vy ps) / real (length ps),
      vz = sum_list (map vz ps) / real (length ps)\<rparr>"

definition prismCorners :: "Rect \<Rightarrow> real \<Rightarrow> real \<Rightarrow> Vec3 list" where
  "prismCorners r baseZ topZ =
     [toGltfCoords (x0 r) (y0 r) baseZ, toGltfCoords (x1 r) (y0 r) baseZ,
      toGltfCoords (x1 r) (y1 r) baseZ, toGltfCoords (x0 r) (y1 r) baseZ,
      toGltfCoords (x0 r) (y0 r) topZ, toGltfCoords (x1 r) (y0 r) topZ,
      toGltfCoords (x1 r) (y1 r) topZ, toGltfCoords (x0 r) (y1 r) topZ]"

definition boxCentroid :: "Rect \<Rightarrow> real \<Rightarrow> real \<Rightarrow> Vec3" where
  "boxCentroid r baseZ topZ = centroid (prismCorners r baseZ topZ)"

definition unit_normal :: "Triangle \<Rightarrow> bool" where
  "unit_normal t = (dot (tri_n t) (tri_n t) = 1)"

definition outward :: "Vec3 \<Rightarrow> Triangle \<Rightarrow> bool" where
  "outward c t =
     (0 < dot (vsub (tri_p0 t) c) (tri_n t)
    \<and> 0 < dot (vsub (tri_p1 t) c) (tri_n t)
    \<and> 0 < dot (vsub (tri_p2 t) c) (tri_n t))"

definition opposite :: "Vec3 \<Rightarrow> Vec3 \<Rightarrow> bool" where
  "opposite a b = (vx a = - vx b \<and> vy a = - vy b \<and> vz a = - vz b)"

definition compatible_normals :: "Vec3 \<Rightarrow> Vec3 \<Rightarrow> bool" where
  "compatible_normals a b = (if a = b \<or> opposite a b then True else dot a b = 0)"

definition corners_of :: "Triangle \<Rightarrow> Vec3 list" where
  "corners_of t = [tri_p0 t, tri_p1 t, tri_p2 t]"


subsection \<open>Observations on emitted vertices\<close>

text \<open>
  The vertices of the text stream, the vertices stored in a position array (three
  coordinates each), those of all buffers of the binary export in palette order, and
  the coordinate remap \<open>(x, y, z) \<mapsto> (x, z, y)\<close> between the two conventions.
\<close>

fun obj_vertices :: "obj_line list \<Rightarrow> (real \<times> real \<times> real) list" where
  "obj_vertices [] = []"
| "obj_vertices (V a b c # ls) = (a, b, c) # obj_vertices ls"
| "obj_vertices (l # ls) = obj_vertices ls"

fun triples :: "real list \<Rightarrow> (real \<times> real \<times> real) list" where
  "triples (a # b # c # xs) = (a, b, c) # triples xs"
| "triples xs = []"

definition gltf_vertices :: "mesh_map \<Rightarrow> (real \<times> real \<times> real) list" where
  "gltf_vertices m =
     concat (map (\<lambda>d. case m (mat_name d) of None \<Rightarrow> [] | Some buf \<Rightarrow> triples (positions buf))
                 kMaterialPalette)"

fun remap :: "real \<times> real \<times> real \<Rightarrow> real \<times> real \<times> real" where
  "remap (x, y, z) = (x, z, y)"

definition diagonalRoadCity :: City where
  "diagonalRoadCity =
     \<lparr>size_c = 4, zones = replicate 16 NoneZ, buildings = [], facilities = [],
      roads = [\<lparr>seg_x1 = 0, seg_y1 = 0, seg_x2 = 3, seg_y2 = 4, seg_type = Local\<rparr>],
      blocks = []\<rparr>"


text \<open>
  The eight corners of an axis-aligned box in the coordinates of the layout, and the
  relation between a buffer map and a text stream that hold the same vertices up to the
  remap; it also records that position arrays hold whole triples.
\<close>

definition box_corners :: "Rect \<Rightarrow> real \<Rightarrow> real \<Rightarrow> (real \<times> real \<times> real) set" where
  "box_corners r baseZ topZ =
     {(x0 r, y0 r, baseZ), (x1 r, y0 r, baseZ), (x1 r, y1 r, baseZ), (x0 r, y1 r, baseZ),
      (x0 r, y0 r, topZ), (x1 r, y0 r, topZ), (x1 r, y1 r, topZ), (x0 r, y1 r, topZ)}"

definition whole_triples :: "mesh_map \<Rightarrow> bool" where
  "whole_triples m = (\<forall>k buf. m k = Some buf \<longrightarrow> 3 dvd length (positions buf))"

definition same_vertices :: "mesh_map \<Rightarrow> obj_state \<Rightarrow> bool" where
  "same_vertices m st =
     (whole_triples m \<and> set (gltf_vertices m) = remap ` set (obj_vertices (fst st)))"


subsection \<open>Observations on the faces of the text stream\<close>

text \<open>
  The text export stores no normals: the normal of a face line \<^verbatim>\<open>f i j k\<close> is given by its
  winding, the cross product of the edges from the first vertex to the second and to the
  third (counter-clockwise seen from the side the normal points to). \<open>obj_triangles\<close>
  resolves the 1-based indices of every face line in the vertex lines of the stream and
  attaches this normal, in the coordinates as written; face lines with an index outside
  the vertex lines are left out. A normal points \<open>inward\<close> when its dot product with the
  vector from the centre \<open>c\<close> to each corner of the triangle is negative. \<open>unitBox\<close> is the
  stream \<^verbatim>\<open>writeRectPrism\<close> writes for the unit square between the elevations 0 and 1.
\<close>

definition cross :: "Vec3 \<Rightarrow> Vec3 \<Rightarrow> Vec3" where
  "cross a b =
     \<lparr>vx = vy a * vz b - vz a * vy b,
      vy = vz a * vx b - vx a * vz b,
      vz = vx a * vy b - vy a * vx b\<rparr>"

fun obj_faces :: "obj_line list \<Rightarrow> (nat \<times> nat \<times> nat) list" where
  "obj_faces [] = []"
| "obj_faces (F i j k # ls) = (i, j, k) # obj_faces ls"
| "obj_faces (l # ls) = obj_faces ls"

definition vec3_of :: "real \<times> real \<times> real \<Rightarrow> Vec3" where
  "vec3_of p = \<lparr>vx = fst p, vy = fst (snd p), vz = snd (snd p)\<rparr>"

definition resolvable :: "nat \<Rightarrow> nat \<times> nat \<times> nat \<Rightarrow> bool" where
  "resolvable n f =
     (case f of (i, j, k) \<Rightarrow> 1 \<le> i \<and> i \<le> n \<and> 1 \<le> j \<and> j \<le> n \<and> 1 \<le> k \<and> k \<le> n)"

definition wound_triangle :: "Vec3 list \<Rightarrow> nat \<times> nat \<times> nat \<Rightarrow> Triangle" where
  "wound_triangle vs f =
     (case f of (i, j, k) \<Rightarrow>
        (let p0 = vs ! (i - 1); p1 = vs ! (j - 1); p2 = vs ! (k - 1)
         in \<lparr>tri_p0 = p0, tri_p1 = p1, tri_p2 = p2, tri_n = cross (vsub p1 p0) (vsub p2 p0)\<rparr>))"

definition obj_triangles :: "obj_line list \<Rightarrow> Triangle list" where
  "obj_triangles ls =
     (let vs = map vec3_of (obj_vertices ls)
      in map (wound_triangle vs) (filter (resolvable (length vs)) (obj_faces ls)))"

definition obj_centroid :: "obj_line list \<Rightarrow> Vec3" where
  "obj_centroid ls = centroid (map vec3_of (obj_vertices ls))"

definition inward :: "Vec3 \<Rightarrow> Triangle \<Rightarrow> bool" where
  "inward c t =
     (dot (vsub (tri_p0 t) c) (tri_n t) < 0
    \<and> dot (vsub (tri_p1 t) c) (tri_n t) < 0
    \<and> dot (vsub (tri_p2 t) c) (tri_n t) < 0)"

definition unitBox :: "obj_line list" where
  "unitBox = fst (writeRectPrism \<lparr>x0 = 0, y0 = 0, x1 = 1, y1 = 1\<rparr> 0 1 ([], 1))"


section \<open>Summary report (City::saveSummary)\<close>

text \<open>The positions of the facilities of one kind, in the order of the facility list.\<close>

definition schoolPos :: "Facility list \<Rightarrow> (real \<times> real) list" where
  "schoolPos fs = map (\<lambda>f. (fac_x f, fac_y f)) (filter (\<lambda>f. fac_type f = School) fs)"

definition hospitalPos :: "Facility list \<Rightarrow> (real \<times> real) list" where
  "hospitalPos fs =
     map (\<lambda>f. (fac_x f, fac_y f))
         (filter (\<lambda>f. fac_type f \<noteq> School \<and> fac_type f = Hospital) fs)"

text \<open>
  The lambda \<^verbatim>\<open>nearest\<close>: the loop keeps the smallest distance seen, starting from
  \<^verbatim>\<open>DBL_MAX\<close>. Every operation of the loop body is rounded. A sum of squares above
  \<^verbatim>\<open>DBL_MAX\<close> stands for an overflow: when a difference, a square or the sum exceeds
  \<^verbatim>\<open>DBL_MAX\<close> in the source, the sum is infinite, so is the distance \<^verbatim>\<open>d\<close>, the test
  \<^verbatim>\<open>d < best\<close> fails and \<^verbatim>\<open>best\<close> stays (an overflow in an earlier operation makes the
  rounded sum of the model exceed \<^verbatim>\<open>DBL_MAX\<close> as well).
\<close>

definition nearest_step :: "real \<Rightarrow> real \<Rightarrow> real \<times> real \<Rightarrow> real \<Rightarrow> real" where
  "nearest_step x y p best =
     (let dx = fl (x - fst p);
          dy = fl (y - snd p);
          s = fl (fl (dx * dx) + fl (dy * dy))
      in if DBL_MAX < s then best
         else (let d = fl (sqrt s)
               in if d < best then d else best))"

definition nearest :: "real \<Rightarrow> real \<Rightarrow> (real \<times> real) list \<Rightarrow> real" where
  "nearest x y pts =
     (if pts = [] then - 1.0
      else fold (nearest_step x y) pts DBL_MAX)"

text \<open>The local counters of \<^verbatim>\<open>saveSummary\<close>, with the initial values of the source.\<close>

record SummaryVars =
  countResidential :: nat
  countCommercial :: nat
  countIndustrial :: nat
  countGreen :: nat
  countUndeveloped :: nat
  totalBuildings :: nat
  maxResidentialHeight :: int
  maxCommercialHeight :: int
  maxIndustrialHeight :: int
  maxDistSchool :: real
  maxDistHospital :: real
  countHospitals :: nat
  countSchools :: nat

definition summaryInit :: SummaryVars where
  "summaryInit =
     \<lparr>countResidential = 0, countCommercial = 0, countIndustrial = 0, countGreen = 0,
      countUndeveloped = 0, totalBuildings = 0,
      maxResidentialHeight = 0, maxCommercialHeight = 0, maxIndustrialHeight = 0,
      maxDistSchool = - 1.0, maxDistHospital = - 1.0,
      countHospitals = 0, countSchools = 0\<rparr>"

text \<open>The body of the loop over \<^verbatim>\<open>zones\<close>.\<close>

definition summary_zone :: "ZoneType \<Rightarrow> SummaryVars \<Rightarrow> SummaryVars" where
  "summary_zone z s =
     (if z = NoneZ then s\<lparr>countUndeveloped := countUndeveloped s + 1\<rparr>
      else if z = Residential then s\<lparr>countResidential := countResidential s + 1\<rparr>
      else if z = Commercial then s\<lparr>countCommercial := countCommercial s + 1\<rparr>
      else if z = Industrial then s\<lparr>countIndustrial := countIndustrial s + 1\<rparr>
      else if z = Green then s\<lparr>countGreen := countGreen s + 1\<rparr>
      else s)"

text \<open>The body of the loop over \<^verbatim>\<open>buildings\<close>.\<close>

definition summary_building ::
  "(real \<times> real) list \<Rightarrow> (real \<times> real) list \<Rightarrow> Building \<Rightarrow> SummaryVars \<Rightarrow> SummaryVars" where
  "summary_building schools hospitals b s =
     (let s = (if zone b \<noteq> NoneZ \<and> zone b \<noteq> Green
               then s\<lparr>totalBuildings := totalBuildings s + 1\<rparr> else s)
      in if zone b = Residential then
           (let s = s\<lparr>maxResidentialHeight := max (maxResidentialHeight s) (height_b b)\<rparr>;
                s = (if schools \<noteq> []
                     then (let d = nearest (centreX (footprint b)) (centreY (footprint b)) schools
                           in if d > maxDistSchool s then s\<lparr>maxDistSchool := d\<rparr> else s)
                     else s);
                s = (if hospitals \<noteq> []
                     then (let d = nearest (centreX (footprint b)) (centreY (footprint b)) hospitals
                           in if d > maxDistHospital s then s\<lparr>maxDistHospital := d\<rparr> else s)
                     else s)
            in s)
         else if zone b = Commercial
           then s\<lparr>maxCommercialHeight := max (maxCommercialHeight s) (height_b b)\<rparr>
         else if zone b = Industrial
           then s\<lparr>maxIndustrialHeight := max (maxIndustrialHeight s) (height_b b)\<rparr>
         else s)"

text \<open>The body of the second loop over \<^verbatim>\<open>facilities\<close>.\<close>

definition summary_facility :: "Facility \<Rightarrow> SummaryVars \<Rightarrow> SummaryVars" where
  "summary_facility f s =
     (if fac_type f = Hospital then s\<lparr>countHospitals := countHospitals s + 1\<rparr>
      else if fac_type f = School then s\<lparr>countSchools := countSchools s + 1\<rparr>
      else s)"

definition summaryVars :: "City \<Rightarrow> SummaryVars" where
  "summaryVars c =
     (let s = fold summary_zone (zones c) summaryInit;
          s = fold (summary_building (schoolPos (facilities c)) (hospitalPos (facilities c)))
                   (buildings c) s
      in fold summary_facility (facilities c) s)"

text \<open>
  The report is the list of its keys and values in the order written; the formatting of
  the numbers as text is not modelled.
\<close>

datatype json_value = JInt int | JNat nat | JReal real

definition saveSummary :: "bool \<Rightarrow> City \<Rightarrow> (string \<times> json_value) list option" where
  "saveSummary ofs_ok c =
     (if \<not> ofs_ok then None
      else
       (let s = summaryVars c
        in Some
          [(''gridSize'', JInt (size_c c)),
           (''totalBuildings'', JNat (totalBuildings s)),
           (''residentialCells'', JNat (countResidential s)),
           (''commercialCells'', JNat (countCommercial s)),
           (''industrialCells'', JNat (countIndustrial s)),
           (''greenCells'', JNat (countGreen s)),
           (''undevelopedCells'', JNat (countUndeveloped s)),
           (''numHospitals'', JNat (countHospitals s)),
           (''numSchools'', JNat (countSchools s)),
           (''maxDistanceToSchool'', JReal (maxDistSchool s)),
           (''maxDistanceToHospital'', JReal (maxDistHospital s)),
           (''maxResidentialHeight'', JInt (maxResidentialHeight s)),
           (''maxCommercialHeight'', JInt (maxCommercialHeight s)),
           (''maxIndustrialHeight'', JInt (maxIndustrialHeight s))]))"

subsection \<open>Observations on the summary\<close>





definition residential :: "City \<Rightarrow> Building list" where
  "residential c = filter (\<lambda>b. zone b = Residential) (buildings c)"

definition reported :: "bool \<Rightarrow> City \<Rightarrow> string \<Rightarrow> json_value option" where
  "reported ofs_ok c key =
     (case saveSummary ofs_ok c of None \<Rightarrow> None | Some kvs \<Rightarrow> map_of kvs key)"






definition officeCity :: City where
  "officeCity =
     \<lparr>size_c = 2, zones = [Commercial, Commercial, Green, NoneZ],
      buildings =
        [\<lparr>footprint = \<lparr>x0 = 0, y0 = 0, x1 = 1, y1 = 1\<rparr>, zone = Commercial, height_b = 12,
          facility = True, facilityType = School\<rparr>,
         \<lparr>footprint = \<lparr>x0 = 1, y0 = 0, x1 = 2, y1 = 1\<rparr>, zone = Commercial, height_b = 4,
          facility = True, facilityType = Hospital\<rparr>],
      facilities =
        [\<lparr>fac_x = 0.5, fac_y = 0.5, fac_type = School\<rparr>,
         \<lparr>fac_x = 1.5, fac_y = 0.5, fac_type = Hospital\<rparr>],
      roads = [], blocks = []\<rparr>"




section \<open>Binary export: the unified container (the \<^verbatim>\<open>binary\<close> branch of City::saveGLTF)\<close>

text \<open>
  Bytes are \<^typ>\<open>8 word\<close>. A \<^verbatim>\<open>std::uint32_t\<close> is written from memory; the four bytes are
  taken in little-endian order, the byte order of the packed buffer. \<open>pad_to4\<close> is the
  loop \<^verbatim>\<open>while (v.size() % 4 != 0) v.push_back(c)\<close>, which the source runs with \<open>0\<close> in
  \<^verbatim>\<open>align4\<close> and with \<open>0x20\<close> on the JSON text.
\<close>

type_synonym byte = "8 word"

definition u32_bytes :: "32 word \<Rightarrow> byte list" where
  "u32_bytes w = [ucast w, ucast (drop_bit 8 w), ucast (drop_bit 16 w), ucast (drop_bit 24 w)]"

function pad_to4 :: "byte \<Rightarrow> byte list \<Rightarrow> byte list" where
  "pad_to4 c v = (if length v mod 4 \<noteq> 0 then pad_to4 c (v @ [c]) else v)"
  by pat_completeness auto
termination
  by (relation "measure (\<lambda>(c, v). 3 - (length v + 3) mod 4)") (auto, presburger)

declare pad_to4.simps [simp del]

definition align4 :: "byte list \<Rightarrow> byte list" where
  "align4 v = pad_to4 0 v"

text \<open>
  The branch takes the JSON text and the packed buffer as they are when control reaches
  it, and whether the output stream opens; the result is the content of the file.
\<close>

definition saveGLTF_binary :: "bool \<Rightarrow> string \<Rightarrow> byte list \<Rightarrow> byte list option" where
  "saveGLTF_binary ofs_ok json binData =
     (if \<not> ofs_ok then None
      else
       (let jsonBytes = pad_to4 0x20 (map of_char json);
            binData = align4 binData;
            totalLength = (12 + 8 + word_of_nat (length jsonBytes)
                              + 8 + word_of_nat (length binData) :: 32 word);
            version = (2 :: 32 word);
            jsonLength = (word_of_nat (length jsonBytes) :: 32 word);
            jsonType = (0x4E4F534A :: 32 word);
            binLength = (word_of_nat (length binData) :: 32 word);
            binType = (0x004E4942 :: 32 word)
        in Some (map of_char ''glTF'' @ u32_bytes version @ u32_bytes totalLength
                 @ u32_bytes jsonLength @ u32_bytes jsonType @ jsonBytes
                 @ u32_bytes binLength @ u32_bytes binType @ binData)))"

subsection \<open>Observations on a container file\<close>

text \<open>
  Reading a little-endian 32-bit field back, and the version and total-length fields of
  the 12-byte header of a file.
\<close>

definition u32_of_bytes :: "byte list \<Rightarrow> 32 word" where
  "u32_of_bytes bs =
     (ucast (bs ! 0)) OR push_bit 8 (ucast (bs ! 1))
       OR push_bit 16 (ucast (bs ! 2)) OR push_bit 24 (ucast (bs ! 3))"

definition glb_version :: "byte list \<Rightarrow> 32 word" where
  "glb_version out = u32_of_bytes (take 4 (drop 4 out))"

definition glb_totalLength :: "byte list \<Rightarrow> 32 word" where
  "glb_totalLength out = u32_of_bytes (take 4 (drop 8 out))"

definition padded :: "byte \<Rightarrow> byte list \<Rightarrow> byte list" where
  "padded c v = v @ replicate ((4 - length v mod 4) mod 4) c"


section \<open>Rounding to double\<close>

lemma rne_cases:
  "rne y = \<lfloor>y\<rfloor> \<and> y - of_int \<lfloor>y\<rfloor> \<le> 1/2 \<or> rne y = \<lfloor>y\<rfloor> + 1 \<and> 1/2 \<le> y - of_int \<lfloor>y\<rfloor>"
  by (auto simp: rne_def Let_def)

lemma rne_error: "\<bar>of_int (rne y) - y\<bar> \<le> 1/2"
proof -
  have "of_int \<lfloor>y\<rfloor> \<le> y" "y < of_int \<lfloor>y\<rfloor> + 1" by linarith+
  with rne_cases [of y] show ?thesis by auto
qed

lemma rne_of_int [simp]: "rne (of_int n) = n"
  by (simp add: rne_def)

lemma rne_mono:
  assumes "y \<le> z"
  shows "rne y \<le> rne z"
proof (cases "\<lfloor>y\<rfloor> = \<lfloor>z\<rfloor>")
  case True
  with assms show ?thesis by (auto simp: rne_def Let_def)
next
  case False
  with assms have "\<lfloor>y\<rfloor> < \<lfloor>z\<rfloor>" using floor_mono [of y z] by linarith
  moreover have "rne y \<le> \<lfloor>y\<rfloor> + 1" using rne_cases [of y] by auto
  moreover have "\<lfloor>z\<rfloor> \<le> rne z" using rne_cases [of z] by auto
  ultimately show ?thesis by linarith
qed

lemma rne_below_half:
  assumes "2 * y < of_int n"
  shows "2 * rne y \<le> n"
proof -
  have "of_int (rne y) - y \<le> 1/2" using rne_error [of y] by linarith
  with assms have "of_int (2 * rne y) < (of_int (n + 1) :: real)" by simp
  then have "2 * rne y < n + 1" by (simp only: of_int_less_iff)
  then show ?thesis by simp
qed


lemma ulp_pos: "0 < ulp x"
  by (simp add: ulp_def)

lemma bexp_bracket:
  assumes "x \<noteq> 0"
  shows "2 powr of_int (bexp x) \<le> \<bar>x\<bar>" and "\<bar>x\<bar> < 2 powr of_int (bexp x + 1)"
proof -
  have "0 < \<bar>x\<bar>" using assms by simp
  from floor_log_eq_powr_iff [OF this, of 2 "bexp x"]
  show "2 powr of_int (bexp x) \<le> \<bar>x\<bar>" and "\<bar>x\<bar> < 2 powr of_int (bexp x + 1)"
    by (simp_all add: bexp_def)
qed

lemma bexp_eqI:
  assumes "2 powr of_int e \<le> \<bar>x\<bar>" and "\<bar>x\<bar> < 2 powr of_int (e + 1)"
  shows "bexp x = e"
proof -
  have "0 < \<bar>x\<bar>" using assms(1) by (smt (verit) powr_gt_zero)
  from floor_log_eq_powr_iff [OF this, of 2 e] assms show ?thesis
    by (simp add: bexp_def)
qed

lemma bexp_less:
  assumes "x \<noteq> 0" and "\<bar>x\<bar> < 2 powr of_int e"
  shows "bexp x < e"
proof -
  have "2 powr of_int (bexp x) < (2::real) powr of_int e"
    using bexp_bracket(1) [OF assms(1)] assms(2) by linarith
  then show ?thesis by simp
qed

lemma bexp_ge:
  assumes "2 powr of_int e \<le> \<bar>x\<bar>"
  shows "e \<le> bexp x"
proof -
  have nz: "x \<noteq> 0" using assms by (smt (verit) powr_gt_zero)
  have "2 powr of_int e < (2::real) powr of_int (bexp x + 1)"
    using bexp_bracket(2) [OF nz] assms by linarith
  then have "e < bexp x + 1" by simp
  then show ?thesis by simp
qed

lemma fl_zero [simp]: "fl 0 = 0"
  by (simp add: fl_def)

lemma fl_minus: "fl (- x) = - fl x"
  by (simp add: fl_def ulp_def bexp_def sgn_minus)

lemma fl_pos_eq: "0 < x \<Longrightarrow> fl x = of_int (rne (x / ulp x)) * ulp x"
  by (simp add: fl_def)

text \<open>The error of one rounding: half a unit in the last place.\<close>

lemma fl_abs_error: "\<bar>fl x - x\<bar> \<le> ulp x / 2"
proof (cases "x = 0")
  case True
  then show ?thesis using ulp_pos [of 0] by simp
next
  case False
  let ?q = "\<bar>x\<bar> / ulp x"
  have u: "0 < ulp x" by (rule ulp_pos)
  have "\<bar>of_int (rne ?q) - ?q\<bar> \<le> 1/2" by (rule rne_error)
  then have "\<bar>of_int (rne ?q) - ?q\<bar> * ulp x \<le> 1/2 * ulp x"
    using u by (intro mult_right_mono) simp_all
  moreover have eq: "of_int (rne ?q) * ulp x - \<bar>x\<bar> = (of_int (rne ?q) - ?q) * ulp x"
    using u by (simp add: left_diff_distrib)
  have "\<bar>of_int (rne ?q) * ulp x - \<bar>x\<bar>\<bar> = \<bar>of_int (rne ?q) - ?q\<bar> * ulp x"
    unfolding eq using u by (simp add: abs_mult)
  ultimately have e: "\<bar>of_int (rne ?q) * ulp x - \<bar>x\<bar>\<bar> \<le> ulp x / 2" by simp
  have "fl x - x = sgn x * (of_int (rne ?q) * ulp x - \<bar>x\<bar>)"
    by (simp add: fl_def right_diff_distrib sgn_mult_abs)
  then have "\<bar>fl x - x\<bar> = \<bar>of_int (rne ?q) * ulp x - \<bar>x\<bar>\<bar>"
    using False by (simp add: abs_mult abs_sgn_eq)
  with e show ?thesis by simp
qed

lemma ulp_normal:
  assumes "2 powr (- 1022) \<le> \<bar>x\<bar>"
  shows "ulp x = 2 powr of_int (bexp x) / 2 ^ 52"
proof -
  have "- 1022 \<le> bexp x" using bexp_ge [of "- 1022" x] assms by simp
  then have "max (bexp x) (- 1022) = bexp x" by simp
  then show ?thesis by (simp add: ulp_def powr_diff)
qed

lemma ulp_subnormal:
  assumes "x \<noteq> 0" and "\<bar>x\<bar> < 2 powr (- 1022)"
  shows "ulp x = 2 powr (- 1074)"
proof -
  have "bexp x < - 1022" using bexp_less [OF assms(1), of "- 1022"] assms(2) by simp
  then have "max (bexp x) (- 1022) = - 1022" by simp
  then show ?thesis by (simp add: ulp_def)
qed

lemma fl_error:
  assumes "2 powr (- 1022) \<le> \<bar>x\<bar>"
  shows "\<bar>fl x - x\<bar> \<le> \<bar>x\<bar> / 2 ^ 53"
proof -
  have nz: "x \<noteq> 0" using assms by (smt (verit) powr_gt_zero)
  have "ulp x = 2 powr of_int (bexp x) / 2 ^ 52" by (rule ulp_normal [OF assms])
  also have "\<dots> \<le> \<bar>x\<bar> / 2 ^ 52"
    using bexp_bracket(1) [OF nz] by (simp add: divide_right_mono)
  finally have "ulp x / 2 \<le> \<bar>x\<bar> / 2 ^ 53" by simp
  with fl_abs_error [of x] show ?thesis by linarith
qed

lemma fl_error_floor:
  assumes "\<bar>x\<bar> / 2 ^ 53 \<le> E" and "2 powr (- 1075) \<le> E"
  shows "\<bar>fl x - x\<bar> \<le> E"
proof (cases "2 powr (- 1022) \<le> \<bar>x\<bar>")
  case True
  from fl_error [OF True] assms(1) show ?thesis by linarith
next
  case False
  show ?thesis
  proof (cases "x = 0")
    case True
    have "(0::real) \<le> 2 powr (- 1075)" by (rule powr_ge_zero)
    with assms(2) have "0 \<le> E" by linarith
    with True show ?thesis by simp
  next
    case nz: False
    from False have "ulp x = 2 powr (- 1074)" by (intro ulp_subnormal nz) simp
    moreover have "(2::real) powr (- 1074) / 2 = 2 powr (- 1075)"
      by (simp add: powr_minus powr_realpow [symmetric] flip: powr_add)
    ultimately have "ulp x / 2 = 2 powr (- 1075)" by simp
    with fl_abs_error [of x] assms(2) show ?thesis by linarith
  qed
qed


text \<open>Rounding is monotone.\<close>

lemma ulp_scale:
  "2 ^ 53 * ulp x = 2 powr of_int (max (bexp x) (- 1022) + 1)"
  "2 ^ 52 * ulp x = 2 powr of_int (max (bexp x) (- 1022))"
proof -
  have "ulp x = 2 powr of_int (max (bexp x) (- 1022) + 1) / 2 ^ 53"
    by (simp add: ulp_def powr_diff powr_add)
  then show "2 ^ 53 * ulp x = 2 powr of_int (max (bexp x) (- 1022) + 1)" by simp
  have "ulp x = 2 powr of_int (max (bexp x) (- 1022)) / 2 ^ 52"
    by (simp add: ulp_def powr_diff)
  then show "2 ^ 52 * ulp x = 2 powr of_int (max (bexp x) (- 1022))" by simp
qed

lemma fl_pos_upper:
  assumes "0 < x"
  shows "fl x \<le> 2 powr of_int (max (bexp x) (- 1022) + 1)"
proof -
  have u: "0 < ulp x" by (rule ulp_pos)
  from assms have nz: "x \<noteq> 0" and ax: "\<bar>x\<bar> = x" by simp_all
  have "x < 2 powr of_int (bexp x + 1)" using bexp_bracket(2) [OF nz] ax by simp
  also have "\<dots> \<le> 2 powr of_int (max (bexp x) (- 1022) + 1)"
    by (intro powr_mono) simp_all
  finally have hi: "x < 2 ^ 53 * ulp x" by (simp only: ulp_scale)
  from hi u have "x / ulp x \<le> of_int (2 ^ 53)" by (simp add: pos_divide_le_eq)
  then have "rne (x / ulp x) \<le> rne (of_int (2 ^ 53))" by (rule rne_mono)
  then have b: "rne (x / ulp x) \<le> (2 ^ 53 :: int)" by (simp only: rne_of_int)
  from b have "of_int (rne (x / ulp x)) * ulp x \<le> of_int (2 ^ 53) * ulp x"
    using u by (intro mult_right_mono) simp_all
  then have "of_int (rne (x / ulp x)) * ulp x \<le> 2 ^ 53 * ulp x"
    by (simp only: of_int_power of_int_numeral)
  then show ?thesis
    by (simp only: fl_pos_eq [OF assms] ulp_scale)
qed

lemma fl_pos_lower:
  assumes "0 < x" and "- 1022 \<le> bexp x"
  shows "2 powr of_int (bexp x) \<le> fl x"
proof -
  have u: "0 < ulp x" by (rule ulp_pos)
  from assms have nz: "x \<noteq> 0" and ax: "\<bar>x\<bar> = x" by simp_all
  from assms(2) have m: "max (bexp x) (- 1022) = bexp x" by simp
  have "2 powr of_int (bexp x) \<le> x" using bexp_bracket(1) [OF nz] ax by simp
  then have lo: "2 ^ 52 * ulp x \<le> x" by (simp only: ulp_scale m)
  from lo u have "of_int (2 ^ 52) \<le> x / ulp x" by (simp add: pos_le_divide_eq)
  then have "rne (of_int (2 ^ 52)) \<le> rne (x / ulp x)" by (rule rne_mono)
  then have a: "(2 ^ 52 :: int) \<le> rne (x / ulp x)" by (simp only: rne_of_int)
  from a have "of_int (2 ^ 52) * ulp x \<le> of_int (rne (x / ulp x)) * ulp x"
    using u by (intro mult_right_mono) simp_all
  then have "2 ^ 52 * ulp x \<le> of_int (rne (x / ulp x)) * ulp x"
    by (simp only: of_int_power of_int_numeral)
  then show ?thesis
    by (simp only: fl_pos_eq [OF assms(1)] ulp_scale m)
qed

lemma fl_pos_nonneg:
  assumes "0 < x"
  shows "0 \<le> fl x"
proof -
  have "0 \<le> x / ulp x" using assms ulp_pos [of x] by simp
  then have "rne (of_int 0) \<le> rne (x / ulp x)" by (intro rne_mono) simp
  then have "0 \<le> rne (x / ulp x)" by (simp only: rne_of_int)
  then show ?thesis using ulp_pos [of x] by (simp add: fl_pos_eq [OF assms])
qed

lemma bexp_mono:
  assumes "0 < x" and "x \<le> y"
  shows "bexp x \<le> bexp y"
proof -
  have "log 2 x \<le> log 2 y" using assms by simp
  then show ?thesis using assms by (simp add: bexp_def floor_mono)
qed

lemma fl_mono_pos:
  assumes "0 < x" and "x \<le> y"
  shows "fl x \<le> fl y"
proof (cases "max (bexp x) (- 1022) = max (bexp y) (- 1022)")
  case True
  then have u: "ulp x = ulp y" by (simp add: ulp_def)
  have "x / ulp y \<le> y / ulp y" using assms ulp_pos [of y] by (simp add: divide_right_mono)
  then have "rne (x / ulp y) \<le> rne (y / ulp y)" by (rule rne_mono)
  then have "of_int (rne (x / ulp y)) * ulp y \<le> of_int (rne (y / ulp y)) * ulp y"
    using ulp_pos [of y] by (intro mult_right_mono) simp_all
  with assms show ?thesis by (simp add: fl_pos_eq u)
next
  case False
  with bexp_mono [OF assms] have lt: "max (bexp x) (- 1022) + 1 \<le> bexp y" and n: "- 1022 \<le> bexp y"
    by simp_all
  from lt have "(2::real) powr of_int (max (bexp x) (- 1022) + 1) \<le> 2 powr of_int (bexp y)"
    by (intro powr_mono) simp_all
  moreover have "fl x \<le> 2 powr of_int (max (bexp x) (- 1022) + 1)"
    by (rule fl_pos_upper [OF assms(1)])
  moreover have "2 powr of_int (bexp y) \<le> fl y" using assms n by (intro fl_pos_lower) simp_all
  ultimately show ?thesis by linarith
qed

lemma fl_mono:
  assumes "x \<le> y"
  shows "fl x \<le> fl y"
proof -
  consider (pp) "0 < x" | (zn) "x \<le> 0" "0 \<le> y" | (nn) "y < 0" using assms by linarith
  then show ?thesis
  proof cases
    case pp
    then show ?thesis using assms by (rule fl_mono_pos)
  next
    case zn
    have "fl x \<le> 0"
    proof (cases "x = 0")
      case True then show ?thesis by simp
    next
      case False
      with zn have "0 < - x" by simp
      from fl_pos_nonneg [OF this] show ?thesis by (simp add: fl_minus)
    qed
    moreover have "0 \<le> fl y"
    proof (cases "y = 0")
      case True then show ?thesis by simp
    next
      case False
      with zn have "0 < y" by simp
      from fl_pos_nonneg [OF this] show ?thesis by simp
    qed
    ultimately show ?thesis by linarith
  next
    case nn
    with assms have "0 < - y" "- y \<le> - x" by simp_all
    from fl_mono_pos [OF this] show ?thesis by (simp add: fl_minus)
  qed
qed

lemma fl_nonneg: "0 \<le> x \<Longrightarrow> 0 \<le> fl x"
  using fl_mono [of 0 x] by simp


text \<open>Every double is a multiple of \<open>2 ^ - 1074\<close>, and sums of multiples are multiples.\<close>

lemma two_powr_nat:
  assumes "0 \<le> d"
  shows "(2::real) powr of_int d = 2 ^ nat d"
proof -
  have "(2::real) powr of_int d = 2 powr real (nat d)" using assms by simp
  also have "\<dots> = 2 ^ nat d" by (rule powr_realpow) simp
  finally show ?thesis .
qed

lemma two_powr_split:
  "(2::real) powr of_int a = 2 powr of_int (a - b) * 2 powr of_int b"
  by (simp flip: powr_add)

lemma ulp_grid: "\<exists>m::int. ulp x = of_int m * 2 powr (- 1074)"
proof -
  let ?t = "max (bexp x) (- 1022) - 52"
  have d: "0 \<le> ?t + 1074" by simp
  have "ulp x = 2 powr of_int (?t + 1074) * 2 powr of_int (- 1074)"
    unfolding ulp_def using two_powr_split [of ?t "- 1074"] by simp
  also have "\<dots> = of_int (2 ^ nat (?t + 1074)) * 2 powr (- 1074)"
    by (simp only: two_powr_nat [OF d]) simp
  finally show ?thesis by blast
qed

lemma on_grid_fl: "on_grid (fl x)"
proof -
  obtain m :: int where m: "ulp x = of_int m * 2 powr (- 1074)" using ulp_grid by blast
  have "sgn x = of_int (sgn (if x < 0 then - 1 else if x = 0 then 0 else (1::int)))"
    by (simp add: sgn_if)
  then obtain s :: int where s: "sgn x = of_int s" by blast
  have "fl x = of_int (s * rne (\<bar>x\<bar> / ulp x) * m) * 2 powr (- 1074)"
    unfolding fl_def s by (subst (2) m) simp
  then show ?thesis unfolding on_grid_def by blast
qed

lemma on_grid_0 [simp]: "on_grid 0"
  unfolding on_grid_def by (rule exI [of _ 0]) simp

lemma on_grid_add: "on_grid a \<Longrightarrow> on_grid b \<Longrightarrow> on_grid (a + b)"
proof -
  assume "on_grid a" "on_grid b"
  then obtain i j :: int where "a = of_int i * 2 powr (- 1074)" "b = of_int j * 2 powr (- 1074)"
    unfolding on_grid_def by blast
  then have "a + b = of_int (i + j) * 2 powr (- 1074)" by (simp add: distrib_right)
  then show ?thesis unfolding on_grid_def by blast
qed

lemma on_grid_minus: "on_grid a \<Longrightarrow> on_grid (- a)"
proof -
  assume "on_grid a"
  then obtain i :: int where "a = of_int i * 2 powr (- 1074)" unfolding on_grid_def by blast
  then have "- a = of_int (- i) * 2 powr (- 1074)" by simp
  then show ?thesis unfolding on_grid_def by blast
qed

lemma on_grid_diff: "on_grid a \<Longrightarrow> on_grid b \<Longrightarrow> on_grid (a - b)"
  using on_grid_add [of a "- b"] on_grid_minus [of b] by simp

lemma on_grid_min: "on_grid a \<Longrightarrow> on_grid b \<Longrightarrow> on_grid (min a b)"
  by (simp add: min_def)

lemma double_on_grid: "double x \<Longrightarrow> on_grid x"
  using on_grid_fl [of x] by (simp add: double_def)

text \<open>Numbers with at most 53 significant bits and an exponent in range are doubles.\<close>

lemma fl_repr:
  assumes "\<bar>n\<bar> < 2 ^ 53" and "- 1074 \<le> e"
  shows "fl (of_int n * 2 powr of_int e) = of_int n * 2 powr of_int e"
proof (cases "n = 0")
  case True
  then show ?thesis by simp
next
  case False
  let ?x = "of_int n * 2 powr of_int e :: real"
  let ?t = "max (bexp ?x) (- 1022) - 52"
  have nz: "?x \<noteq> 0" using False by simp
  have ax: "\<bar>?x\<bar> = of_int \<bar>n\<bar> * 2 powr of_int e" by (simp add: abs_mult)
  have "real_of_int \<bar>n\<bar> < 2 ^ 53" using assms(1) by (metis of_int_less_numeral_power_cancel_iff)
  then have "\<bar>?x\<bar> < 2 ^ 53 * 2 powr of_int e" unfolding ax by (intro mult_strict_right_mono) simp_all
  also have "\<dots> = 2 powr of_int (e + 53)"
    by (simp add: powr_add powr_realpow [symmetric])
  finally have "bexp ?x < e + 53" by (rule bexp_less [OF nz])
  with assms(2) have d: "0 \<le> e - ?t" by simp
  have u: "ulp ?x = 2 powr of_int ?t" by (simp add: ulp_def)
  have "\<bar>?x\<bar> / ulp ?x = of_int \<bar>n\<bar> * (2 powr of_int (e - ?t) * 2 powr of_int ?t) / 2 powr of_int ?t"
    unfolding ax u using two_powr_split [of e ?t] by simp
  also have "\<dots> = of_int \<bar>n\<bar> * 2 powr of_int (e - ?t)" by simp
  also have "\<dots> = of_int (\<bar>n\<bar> * 2 ^ nat (e - ?t))" by (simp only: two_powr_nat [OF d]) simp
  finally have q: "\<bar>?x\<bar> / ulp ?x = of_int (\<bar>n\<bar> * 2 ^ nat (e - ?t))" .
  have "fl ?x = sgn ?x * (of_int (\<bar>n\<bar> * 2 ^ nat (e - ?t)) * ulp ?x)"
    unfolding fl_def q by (simp only: rne_of_int)
  also have "of_int (\<bar>n\<bar> * 2 ^ nat (e - ?t)) * ulp ?x = \<bar>?x\<bar> / ulp ?x * ulp ?x"
    by (simp only: q)
  also have "\<dots> = \<bar>?x\<bar>" using ulp_pos [of ?x] by simp
  finally show ?thesis by (simp add: sgn_mult_abs)
qed

lemma fl_grid_small:
  assumes "on_grid x" and "\<bar>x\<bar> < 2 powr (- 1021)"
  shows "fl x = x"
proof -
  from assms(1) obtain n :: int where n: "x = of_int n * 2 powr (- 1074)"
    unfolding on_grid_def by blast
  have "(2::real) powr (- 1021) = 2 ^ 53 * 2 powr (- 1074)"
    by (simp add: powr_minus)
  with assms(2) have "\<bar>of_int n * 2 powr (- 1074)\<bar> < 2 ^ 53 * (2::real) powr (- 1074)"
    by (simp only: n)
  then have "real_of_int \<bar>n\<bar> * 2 powr (- 1074) < 2 ^ 53 * 2 powr (- 1074)"
    by (simp add: abs_mult)
  then have "real_of_int \<bar>n\<bar> < 2 ^ 53" by (rule mult_right_less_imp_less) simp
  then have "\<bar>n\<bar> < 2 ^ 53" by (metis of_int_less_numeral_power_cancel_iff)
  from fl_repr [OF this, of "- 1074"] show ?thesis by (simp add: n)
qed

lemma fl_error_grid:
  assumes "on_grid x"
  shows "\<bar>fl x - x\<bar> \<le> \<bar>x\<bar> / 2 ^ 53"
proof (cases "2 powr (- 1022) \<le> \<bar>x\<bar>")
  case True
  then show ?thesis by (rule fl_error)
next
  case False
  have "(2::real) powr (- 1022) \<le> 2 powr (- 1021)" by (intro powr_mono) simp_all
  with False have "\<bar>x\<bar> < 2 powr (- 1021)" by linarith
  from fl_grid_small [OF assms this] show ?thesis by simp
qed

lemma fl_grid_pos:
  assumes "on_grid x" and "0 < x"
  shows "0 < fl x"
proof -
  have "\<bar>fl x - x\<bar> \<le> \<bar>x\<bar> / 2 ^ 53" by (rule fl_error_grid [OF assms(1)])
  moreover have "x / 2 ^ 53 < x" using assms(2) by (simp add: divide_less_eq)
  ultimately show ?thesis using assms(2) by linarith
qed

text \<open>The error of one rounding, as lower and upper bounds.\<close>

lemma round_product:
  fixes z u :: real
  assumes z: "0 \<le> z" and u: "u = 1 / 2 ^ 53"
  shows "z * (1 - u) - 2 powr (- 1075) \<le> fl z" and "fl z \<le> z * (1 + u) + 2 powr (- 1075)"
proof -
  have p: "(0::real) \<le> 2 powr (- 1075)" by (rule powr_ge_zero)
  have a: "\<bar>z\<bar> / 2 ^ 53 \<le> z * u + 2 powr (- 1075)" using z p by (simp add: u)
  have b: "2 powr (- 1075) \<le> z * u + 2 powr (- 1075)" using z by (simp add: u)
  from fl_error_floor [OF a b] have "\<bar>fl z - z\<bar> \<le> z * u + 2 powr (- 1075)" .
  then show "z * (1 - u) - 2 powr (- 1075) \<le> fl z" and "fl z \<le> z * (1 + u) + 2 powr (- 1075)"
    by (simp_all add: algebra_simps abs_le_iff)
qed

lemma round_grid:
  fixes z u :: real
  assumes g: "on_grid z" and z: "0 \<le> z" and u: "u = 1 / 2 ^ 53"
  shows "z * (1 - u) \<le> fl z" and "fl z \<le> z * (1 + u)"
proof -
  have "\<bar>fl z - z\<bar> \<le> \<bar>z\<bar> / 2 ^ 53" by (rule fl_error_grid [OF g])
  with z have "\<bar>fl z - z\<bar> \<le> z * u" by (simp add: u)
  then show "z * (1 - u) \<le> fl z" and "fl z \<le> z * (1 + u)"
    by (simp_all add: algebra_simps abs_le_iff)
qed

lemma round_any:
  fixes z M u :: real
  assumes z: "\<bar>z\<bar> \<le> M" and u: "u = 1 / 2 ^ 53"
  shows "\<bar>fl z - z\<bar> \<le> M * u + 2 powr (- 1075)"
proof -
  have p: "(0::real) \<le> 2 powr (- 1075)" by (rule powr_ge_zero)
  have "\<bar>z\<bar> / 2 ^ 53 \<le> M / 2 ^ 53" using z by (simp add: divide_right_mono)
  moreover have "M / 2 ^ 53 = M * u" by (simp add: u)
  ultimately have a: "\<bar>z\<bar> / 2 ^ 53 \<le> M * u + 2 powr (- 1075)" using p by linarith
  have "0 \<le> M" using z by linarith
  then have "0 \<le> M * u" by (simp add: u)
  then have b: "2 powr (- 1075) \<le> M * u + 2 powr (- 1075)" by linarith
  from fl_error_floor [OF a b] show ?thesis .
qed

text \<open>Evaluation of \<open>fl\<close> at a number given with its scale.\<close>

lemma fl_eval_pow:
  assumes "0 < x" and "2 ^ 52 \<le> x * 2 ^ n" and "x * 2 ^ n < 2 ^ 53" and "n \<le> 1074"
  shows "fl x = of_int (rne (x * 2 ^ n)) / 2 ^ n"
proof -
  have "(2::real) powr of_int (52 - int n) = 2 powr (52 - real n)" by simp
  also have "\<dots> = 2 powr 52 / 2 powr real n" by (rule powr_diff)
  also have "\<dots> = 2 ^ 52 / 2 ^ n" by (simp add: powr_realpow)
  finally have p: "(2::real) powr of_int (52 - int n) = 2 ^ 52 / 2 ^ n" .
  have "(2::real) powr of_int (52 - int n + 1) = 2 powr (53 - real n)" by simp
  also have "\<dots> = 2 powr 53 / 2 powr real n" by (rule powr_diff)
  also have "\<dots> = 2 ^ 53 / 2 ^ n" by (simp add: powr_realpow)
  finally have q: "(2::real) powr of_int (52 - int n + 1) = 2 ^ 53 / 2 ^ n" .
  from assms have ax: "\<bar>x\<bar> = x" by simp
  have lo: "2 powr of_int (52 - int n) \<le> \<bar>x\<bar>"
    unfolding p ax using assms(2) by (simp add: pos_divide_le_eq)
  have hi: "\<bar>x\<bar> < 2 powr of_int (52 - int n + 1)"
    unfolding q ax using assms(3) by (simp add: pos_less_divide_eq)
  have b: "bexp x = 52 - int n" by (rule bexp_eqI [OF lo hi])
  have m: "max (52 - int n) (- 1022) = 52 - int n" using assms(4) by simp
  have "(2::real) powr of_int (52 - int n - 52) = 2 powr (- real n)" by simp
  also have "\<dots> = 1 / 2 powr real n" by (simp add: powr_minus inverse_eq_divide)
  also have "\<dots> = 1 / 2 ^ n" by (simp add: powr_realpow)
  finally have u: "(2::real) powr of_int (52 - int n - 52) = 1 / 2 ^ n" .
  have "ulp x = 1 / 2 ^ n" unfolding ulp_def b m by (rule u)
  with assms(1) show ?thesis by (simp add: fl_pos_eq)
qed

lemma fl_int:
  assumes "\<bar>n\<bar> < 2 ^ 53"
  shows "fl (of_int n) = of_int n"
  using fl_repr [OF assms, of 0] by simp

lemma fl_exact:
  assumes "0 < x" and "2 ^ 52 \<le> x * 2 ^ n" and "x * 2 ^ n < 2 ^ 53" and "n \<le> 1074"
    and "x * 2 ^ n = of_int m"
  shows "fl x = x"
proof -
  have "fl x = of_int (rne (x * 2 ^ n)) / 2 ^ n" by (rule fl_eval_pow [OF assms(1-4)])
  also have "\<dots> = x * 2 ^ n / 2 ^ n" by (simp only: assms(5) rne_of_int)
  finally show ?thesis by simp
qed

lemma DBL_MAX_large: "1000 \<le> DBL_MAX"
  by (simp add: DBL_MAX_def)



section \<open>Properties of the inset rule\<close>

lemma rect_doubles_grid:
  assumes "rect_doubles r"
  shows "on_grid (x0 r)" "on_grid (y0 r)" "on_grid (x1 r)" "on_grid (y1 r)"
  using assms by (simp_all add: rect_doubles_def double_on_grid)

lemma grid_diff_nonneg:
  assumes "on_grid a" and "on_grid b" and "0 \<le> fl (b - a)"
  shows "a \<le> b"
proof (rule ccontr)
  assume "\<not> a \<le> b"
  then have "0 < a - b" by simp
  moreover have "on_grid (a - b)" using assms(1,2) by (rule on_grid_diff)
  ultimately have "0 < fl (a - b)" by (intro fl_grid_pos)
  then have "0 < fl (- (b - a))" by simp
  then have "fl (b - a) < 0" by (simp only: fl_minus neg_0_less_iff_less)
  with assms(3) show False by simp
qed

lemma width_nonneg: "rect_doubles r \<Longrightarrow> 0 \<le> width r \<Longrightarrow> x0 r \<le> x1 r"
  unfolding width_def by (rule grid_diff_nonneg) (simp_all add: rect_doubles_grid)

lemma height_nonneg: "rect_doubles r \<Longrightarrow> 0 \<le> height r \<Longrightarrow> y0 r \<le> y1 r"
  unfolding height_def by (rule grid_diff_nonneg) (simp_all add: rect_doubles_grid)

lemma fl_049: "fl (49 / 100) = 2206763817411543 / 4503599627370496"
  by (subst fl_eval_pow [where n = 54]) (simp_all add: rne_def Let_def)

lemma fl_049_bounds: "0 < fl 0.49" "fl 0.49 \<le> 49 / 100" "48 / 100 \<le> fl 0.49"
  by (simp_all add: fl_049)

lemma scaled_le:
  assumes g: "on_grid m" and m: "0 \<le> m"
  shows "2 * fl (m * fl 0.49) \<le> m * (99 / 100)
       \<or> (m < 2 powr (- 1022) \<and> 2 * fl (m * fl 0.49) \<le> m)"
proof (cases "2 powr (- 1022) \<le> m")
  case True
  let ?x = "m * fl 0.49"
  have x: "0 \<le> ?x" "?x \<le> m * (49 / 100)" "m * (48 / 100) \<le> ?x"
  proof -
    show "0 \<le> ?x" using m fl_049_bounds(1) by (intro mult_nonneg_nonneg) simp_all
    show "?x \<le> m * (49 / 100)" using m fl_049_bounds(2) by (rule mult_left_mono [rotated])
    show "m * (48 / 100) \<le> ?x" using m fl_049_bounds(3) by (rule mult_left_mono [rotated])
  qed
  have "(2::real) powr (- 1075) = 2 powr (- 1022) * (1 / 2 ^ 53)"
    by (simp add: powr_minus)
  also have "\<dots> \<le> m * (1 / 2 ^ 53)" using True by (intro mult_right_mono) simp_all
  also have "\<dots> \<le> ?x / 2 ^ 51" using x(3) m by (simp add: field_simps)
  finally have f: "2 powr (- 1075) \<le> ?x / 2 ^ 51" .
  have "\<bar>?x\<bar> / 2 ^ 53 \<le> ?x / 2 ^ 51" using x(1) by (simp add: field_simps)
  from fl_error_floor [OF this f] have "fl ?x \<le> ?x + ?x / 2 ^ 51" by linarith
  also have "\<dots> = ?x * (1 + 1 / 2 ^ 51)" by (simp add: algebra_simps)
  also have "\<dots> \<le> m * (49 / 100) * (1 + 1 / 2 ^ 51)" using x(2) by (intro mult_right_mono) simp_all
  finally have "2 * fl ?x \<le> m * (2 * ((49 / 100) * (1 + 1 / 2 ^ 51)))" by (simp add: algebra_simps)
  also have "\<dots> \<le> m * (99 / 100)" using m by (intro mult_left_mono) simp_all
  finally show ?thesis by simp
next
  case False
  then have small: "m < 2 powr (- 1022)" by simp
  from g obtain n :: int where n: "m = of_int n * 2 powr (- 1074)"
    unfolding on_grid_def by blast
  have "2 * fl (m * fl 0.49) \<le> m"
  proof (cases "m = 0")
    case True
    then show ?thesis by simp
  next
    case nz: False
    with m have mp: "0 < m" by simp
    let ?x = "m * fl 0.49"
    have xp: "0 < ?x" using mp fl_049_bounds(1) by (rule mult_pos_pos)
    have "?x \<le> m * 1" using m fl_049_bounds(2) by (intro mult_left_mono) simp_all
    with small xp have "\<bar>?x\<bar> < 2 powr (- 1022)" by simp
    moreover have "?x \<noteq> 0" using xp by (rule less_imp_neq [THEN not_sym])
    ultimately have u: "ulp ?x = 2 powr (- 1074)" by (intro ulp_subnormal)
    have np: "0 < n" using mp unfolding n by (simp add: zero_less_mult_iff)
    have "?x / ulp ?x = ?x / 2 powr (- 1074)" by (simp only: u)
    also have "\<dots> = of_int n * fl 0.49" by (simp add: n)
    finally have q: "?x / ulp ?x = of_int n * fl 0.49" .
    have "fl ?x = of_int (rne (?x / ulp ?x)) * ulp ?x" by (rule fl_pos_eq [OF xp])
    also have "\<dots> = of_int (rne (of_int n * fl 0.49)) * ulp ?x" by (simp only: q)
    also have "\<dots> = of_int (rne (of_int n * fl 0.49)) * 2 powr (- 1074)" by (simp only: u)
    finally have f: "fl ?x = of_int (rne (of_int n * fl 0.49)) * 2 powr (- 1074)" .
    have "real_of_int n * fl 0.49 \<le> real_of_int n * (49 / 100)"
      using np fl_049_bounds(2) by (intro mult_left_mono) simp_all
    moreover have "2 * (real_of_int n * (49 / 100)) < real_of_int n" using np by simp
    ultimately have "2 * (of_int n * fl 0.49) < (of_int n :: real)" by linarith
    then have "2 * rne (of_int n * fl 0.49) \<le> n" by (rule rne_below_half)
    then have "real_of_int (2 * rne (of_int n * fl 0.49)) \<le> real_of_int n" by (simp only: of_int_le_iff)
    then have "2 * real_of_int (rne (of_int n * fl 0.49)) * 2 powr (- 1074) \<le> real_of_int n * 2 powr (- 1074)"
      by (intro mult_right_mono) simp_all
    then have "2 * fl ?x \<le> real_of_int n * 2 powr (- 1074)" by (simp only: f mult.assoc)
    then show ?thesis by (simp only: n)
  qed
  with small show ?thesis by simp
qed

lemma half_bound:
  assumes W: "on_grid W" "0 \<le> W" and m: "on_grid m" "0 \<le> m" "m \<le> fl W"
  shows "2 * fl (m * fl 0.49) \<le> W"
proof (cases "W < 2 powr (- 1021)")
  case True
  with W have "fl W = W" by (intro fl_grid_small) simp_all
  with m(3) have "m \<le> W" by simp
  moreover have "2 * fl (m * fl 0.49) \<le> m"
    using scaled_le [OF m(1,2)] m(2) by linarith
  ultimately show ?thesis by linarith
next
  case False
  have p: "(2::real) powr (- 1022) \<le> 2 powr (- 1021)" by (intro powr_mono) simp_all
  from scaled_le [OF m(1,2)] show ?thesis
  proof
    assume a: "2 * fl (m * fl 0.49) \<le> m * (99 / 100)"
    have "\<bar>fl W - W\<bar> \<le> \<bar>W\<bar> / 2 ^ 53" by (rule fl_error_grid [OF W(1)])
    with W(2) have "fl W \<le> W + W / 2 ^ 53" by linarith
    then have "fl W \<le> W * (1 + 1 / 2 ^ 53)" by (simp add: algebra_simps)
    with m(3) have "m * (99 / 100) \<le> W * (1 + 1 / 2 ^ 53) * (99 / 100)"
      by (intro mult_right_mono) simp_all
    also have "\<dots> = W * ((1 + 1 / 2 ^ 53) * (99 / 100))" by simp
    also have "\<dots> \<le> W * 1" using W(2) by (intro mult_left_mono) simp_all
    finally show ?thesis using a by simp
  next
    assume "m < 2 powr (- 1022) \<and> 2 * fl (m * fl 0.49) \<le> m"
    with False p show ?thesis by linarith
  qed
qed

lemma maxInset_nonneg:
  assumes "0 \<le> width r" and "0 \<le> height r"
  shows "0 \<le> maxInset r"
  unfolding maxInset_def using assms fl_049_bounds(1)
  by (intro fl_nonneg mult_nonneg_nonneg) simp_all

lemma maxInset_half:
  assumes "rect_doubles r" and "0 \<le> width r" and "0 \<le> height r"
  shows "2 * maxInset r \<le> x1 r - x0 r" and "2 * maxInset r \<le> y1 r - y0 r"
proof -
  note g = rect_doubles_grid [OF assms(1)]
  have x: "0 \<le> x1 r - x0 r" using width_nonneg [OF assms(1,2)] by simp
  have y: "0 \<le> y1 r - y0 r" using height_nonneg [OF assms(1,3)] by simp
  have gx: "on_grid (x1 r - x0 r)" and gy: "on_grid (y1 r - y0 r)"
    using g by (simp_all add: on_grid_diff)
  have gm: "on_grid (min (width r) (height r))"
    unfolding width_def height_def by (intro on_grid_min on_grid_fl)
  have m: "0 \<le> min (width r) (height r)" using assms by simp
  have mw: "min (width r) (height r) \<le> fl (x1 r - x0 r)"
    and mh: "min (width r) (height r) \<le> fl (y1 r - y0 r)"
    by (simp_all add: width_def height_def)
  show "2 * maxInset r \<le> x1 r - x0 r"
    unfolding maxInset_def by (rule half_bound [OF gx x gm m mw])
  show "2 * maxInset r \<le> y1 r - y0 r"
    unfolding maxInset_def by (rule half_bound [OF gy y gm m mh])
qed

lemma appliedInset_bounds:
  assumes "0 \<le> width r" and "0 \<le> height r"
  shows "0 \<le> appliedInset r k" and "appliedInset r k \<le> maxInset r"
  using maxInset_nonneg [OF assms]
  by (simp_all add: appliedInset_def clamp_std_def)

lemma appliedInset_min: "0 \<le> k \<Longrightarrow> appliedInset r k = min k (maxInset r)"
  by (simp add: appliedInset_def clamp_std_def min_def)

lemma appliedInset_grid: "on_grid k \<Longrightarrow> on_grid (appliedInset r k)"
  by (simp add: appliedInset_def clamp_std_def maxInset_def on_grid_fl)

lemma insetRect_fields:
  "x0 (insetRect r k) = fl (x0 r + appliedInset r k)"
  "x1 (insetRect r k) = fl (x1 r - appliedInset r k)"
  "y0 (insetRect r k) = fl (y0 r + appliedInset r k)"
  "y1 (insetRect r k) = fl (y1 r - appliedInset r k)"
  by (simp_all add: insetRect_def Let_def)

lemma maxInset_scaled:
  assumes g: "on_grid W" and W: "0 \<le> W" and m: "0 \<le> m" "m \<le> fl W"
  shows "2 * fl (m * fl 0.49) \<le> 98 / 100 * W + 4 * (W * (1 / 2 ^ 53)) + 2 powr (- 1074)"
proof -
  define u :: real where "u = 1 / 2 ^ 53"
  define P where "P = m * fl 0.49"
  have u0: "0 \<le> u" "u \<le> 1" by (simp_all add: u_def)
  have z: "0 \<le> P" unfolding P_def using m(1) fl_049_bounds(1) by (intro mult_nonneg_nonneg) simp_all
  note r = round_product(2) [OF z u_def]
  have w: "fl W \<le> W * (1 + u)" by (rule round_grid(2) [OF g W u_def])
  have "P \<le> m * (49 / 100)"
    unfolding P_def using m(1) fl_049_bounds(2) by (rule mult_left_mono [rotated])
  also have "\<dots> \<le> W * (1 + u) * (49 / 100)" using m(2) w by (intro mult_right_mono) simp_all
  finally have "P * (1 + u) \<le> W * (1 + u) * (49 / 100) * (1 + u)"
    using u0 by (intro mult_right_mono) simp_all
  also have "\<dots> = W * (49 / 100 * ((1 + u) * (1 + u)))" by (simp add: algebra_simps)
  also have "\<dots> \<le> W * (49 / 100 + 2 * u)"
    using W by (intro mult_left_mono) (simp_all add: u_def)
  also have "\<dots> = 49 / 100 * W + 2 * (W * u)" by (simp add: algebra_simps)
  finally have "fl P \<le> 49 / 100 * W + 2 * (W * u) + 2 powr (- 1075)" using r by linarith
  moreover have "2 * (2::real) powr (- 1075) = 2 powr (- 1074)" by (simp add: powr_minus)
  ultimately have "2 * fl P \<le> 98 / 100 * W + 4 * (W * u) + 2 powr (- 1074)" by linarith
  then show ?thesis by (simp only: P_def u_def)
qed

lemma remaining_extent:
  fixes p q a :: real
  assumes dp: "double p" and dq: "double q" and a0: "0 \<le> a" and a1: "2 * a \<le> q - p"
    and a2: "2 * a \<le> 98 / 100 * (q - p) + 4 * ((q - p) * (1 / 2 ^ 53)) + 2 powr (- 1074)"
  shows "2 / 100 * fl (q - p) - max \<bar>p\<bar> \<bar>q\<bar> / 2 ^ 49 - 2 powr (- 1073)
           \<le> fl (fl (q - a) - fl (p + a))"
proof -
  define u :: real where "u = 1 / 2 ^ 53"
  define h :: real where "h = 2 powr (- 1075)"
  define M where "M = max \<bar>p\<bar> \<bar>q\<bar>"
  define W where "W = q - p"
  define W' where "W' = fl (q - a) - fl (p + a)"
  have u0: "0 \<le> u" "u \<le> 1" by (simp_all add: u_def)
  have h0: "0 \<le> h" unfolding h_def by (rule powr_ge_zero)
  have hh: "2 powr (- 1074) = 2 * h" "2 powr (- 1073) = 4 * h" by (simp_all add: h_def powr_minus)
  have M: "\<bar>p\<bar> \<le> M" "\<bar>q\<bar> \<le> M" "0 \<le> M" by (simp_all add: M_def)
  have W: "0 \<le> W" "W \<le> 2 * M" using a0 a1 M by (simp_all add: W_def)
  have Mu: "0 \<le> M * u" using M(3) u0 by simp
  have Wu: "W * u \<le> 2 * (M * u)" using mult_right_mono [OF W(2) u0(1)] by simp
  have gp: "on_grid p" and gq: "on_grid q" using dp dq by (simp_all add: double_on_grid)
  have gW: "on_grid W" unfolding W_def using gq gp by (rule on_grid_diff)
  have fp: "fl p = p" and fq: "fl q = q" using dp dq by (simp_all add: double_def)
  have s0: "\<bar>p + a\<bar> \<le> M" and s1: "\<bar>q - a\<bar> \<le> M" using a0 a1 M by linarith+
  from round_any [OF s0 u_def] have e0: "fl (p + a) \<le> p + a + M * u + h"
    unfolding h_def by linarith
  from round_any [OF s1 u_def] have e1: "q - a - M * u - h \<le> fl (q - a)"
    unfolding h_def by linarith
  have "fl (p + a) \<le> fl (q - a)" using a1 by (intro fl_mono) linarith
  then have W'0: "0 \<le> W'" by (simp add: W'_def)
  have "fl p \<le> fl (p + a)" using a0 by (intro fl_mono) simp
  moreover have "fl (q - a) \<le> fl q" using a0 by (intro fl_mono) simp
  ultimately have "W' \<le> W" by (simp add: W'_def W_def fp fq)
  with W(2) have W'M: "W' \<le> 2 * M" by linarith
  have gW': "on_grid W'" unfolding W'_def by (intro on_grid_diff on_grid_fl)
  from a2 have a2': "2 * a \<le> 98 / 100 * W + 4 * (W * u) + 2 * h"
    by (simp only: W_def u_def hh)
  have lo: "2 / 100 * W - 10 * (M * u) - 4 * h \<le> W'"
    using e0 e1 a2' Wu W_def W'_def by linarith
  have "W' * (1 - u) \<le> fl W'" by (rule round_grid(1) [OF gW' W'0 u_def])
  moreover have "W' * u \<le> 2 * M * u" using W'M u0 by (intro mult_right_mono) simp_all
  ultimately have r1: "W' - 2 * (M * u) \<le> fl W'" by (simp add: algebra_simps)
  have "fl W \<le> W * (1 + u)" by (rule round_grid(2) [OF gW W(1) u_def])
  then have r2: "fl W \<le> W + 2 * (M * u)" using Wu by (simp add: algebra_simps)
  have "2 / 100 * fl W - 13 * (M * u) - 4 * h \<le> fl W'"
    using lo r1 r2 Mu by linarith
  moreover have "13 * (M * u) \<le> M / 2 ^ 49" using M(3) by (simp add: u_def)
  ultimately have "2 / 100 * fl W - M / 2 ^ 49 - 4 * h \<le> fl W'" by linarith
  then show ?thesis by (simp only: W_def W'_def M_def hh)
qed

text \<open>
  Claim C3, as the code has it. For every rectangle whose bounds are doubles, of
  non-negative (finite) width and height, and every inset \<open>k \<ge> 0\<close>: the bound \<open>maxInset\<close>
  is the rounded product of the smaller extent and the double nearest to 0.49; the inset
  applied is the smaller of \<open>k\<close> and \<open>maxInset\<close>, it lies between 0 and \<open>maxInset\<close>, and twice
  the inset applied does not exceed either extent; each bound of the result is the bound
  of the rectangle moved inward by the inset applied, rounded; the bounds of the result
  never invert; and the width of the result is at least 2 percent of the width of the
  rectangle less the rounding error \<open>max |x0| |x1| / 2 ^ 49 + 2 ^ - 1073\<close>, likewise the
  height.
\<close>

theorem insetRect_never_inverts:
  assumes "rect_doubles r" and "0 \<le> width r" and "0 \<le> height r" and "0 \<le> k"
    and "x1 r - x0 r \<le> DBL_MAX" and "y1 r - y0 r \<le> DBL_MAX"
  shows "maxInset r = fl (min (width r) (height r) * fl 0.49)
       \<and> appliedInset r k = min k (maxInset r)
       \<and> 0 \<le> appliedInset r k \<and> appliedInset r k \<le> maxInset r
       \<and> 2 * appliedInset r k \<le> x1 r - x0 r
       \<and> 2 * appliedInset r k \<le> y1 r - y0 r
       \<and> x0 (insetRect r k) = fl (x0 r + appliedInset r k)
       \<and> x1 (insetRect r k) = fl (x1 r - appliedInset r k)
       \<and> y0 (insetRect r k) = fl (y0 r + appliedInset r k)
       \<and> y1 (insetRect r k) = fl (y1 r - appliedInset r k)
       \<and> x0 (insetRect r k) \<le> x1 (insetRect r k)
       \<and> y0 (insetRect r k) \<le> y1 (insetRect r k)
       \<and> 0.02 * width r - max \<bar>x0 r\<bar> \<bar>x1 r\<bar> / 2 ^ 49 - 2 powr (- 1073)
             \<le> width (insetRect r k)
       \<and> 0.02 * height r - max \<bar>y0 r\<bar> \<bar>y1 r\<bar> / 2 ^ 49 - 2 powr (- 1073)
             \<le> height (insetRect r k)"
proof -
  note b = appliedInset_bounds [OF assms(2,3), of k]
  note h = maxInset_half [OF assms(1,2,3)]
  have ax: "2 * appliedInset r k \<le> x1 r - x0 r" using b(2) h(1) by linarith
  have ay: "2 * appliedInset r k \<le> y1 r - y0 r" using b(2) h(2) by linarith
  have x: "x0 (insetRect r k) \<le> x1 (insetRect r k)"
    unfolding insetRect_fields using ax by (intro fl_mono) linarith
  have y: "y0 (insetRect r k) \<le> y1 (insetRect r k)"
    unfolding insetRect_fields using ay by (intro fl_mono) linarith
  note g = rect_doubles_grid [OF assms(1)]
  have d: "double (x0 r)" "double (y0 r)" "double (x1 r)" "double (y1 r)"
    using assms(1) by (simp_all add: rect_doubles_def)
  have wx: "0 \<le> x1 r - x0 r" using width_nonneg [OF assms(1,2)] by simp
  have wy: "0 \<le> y1 r - y0 r" using height_nonneg [OF assms(1,3)] by simp
  have gx: "on_grid (x1 r - x0 r)" and gy: "on_grid (y1 r - y0 r)"
    using g by (simp_all add: on_grid_diff)
  have m: "0 \<le> min (width r) (height r)" using assms(2,3) by simp
  have mw: "min (width r) (height r) \<le> fl (x1 r - x0 r)"
    and mh: "min (width r) (height r) \<le> fl (y1 r - y0 r)"
    by (simp_all add: width_def height_def)
  have sx: "2 * appliedInset r k
      \<le> 98 / 100 * (x1 r - x0 r) + 4 * ((x1 r - x0 r) * (1 / 2 ^ 53)) + 2 powr (- 1074)"
  proof -
    have "2 * maxInset r
      \<le> 98 / 100 * (x1 r - x0 r) + 4 * ((x1 r - x0 r) * (1 / 2 ^ 53)) + 2 powr (- 1074)"
      unfolding maxInset_def by (rule maxInset_scaled [OF gx wx m mw])
    with b(2) show ?thesis by linarith
  qed
  have sy: "2 * appliedInset r k
      \<le> 98 / 100 * (y1 r - y0 r) + 4 * ((y1 r - y0 r) * (1 / 2 ^ 53)) + 2 powr (- 1074)"
  proof -
    have "2 * maxInset r
      \<le> 98 / 100 * (y1 r - y0 r) + 4 * ((y1 r - y0 r) * (1 / 2 ^ 53)) + 2 powr (- 1074)"
      unfolding maxInset_def by (rule maxInset_scaled [OF gy wy m mh])
    with b(2) show ?thesis by linarith
  qed
  have ex: "0.02 * width r - max \<bar>x0 r\<bar> \<bar>x1 r\<bar> / 2 ^ 49 - 2 powr (- 1073)
             \<le> width (insetRect r k)"
  proof -
    have "2 / 100 * fl (x1 r - x0 r) - max \<bar>x0 r\<bar> \<bar>x1 r\<bar> / 2 ^ 49 - 2 powr (- 1073)
            \<le> fl (fl (x1 r - appliedInset r k) - fl (x0 r + appliedInset r k))"
      by (rule remaining_extent [OF d(1) d(3) b(1) ax sx])
    moreover have "(0.02::real) = 2 / 100" by simp
    ultimately show ?thesis by (simp only: width_def insetRect_fields)
  qed
  have ey: "0.02 * height r - max \<bar>y0 r\<bar> \<bar>y1 r\<bar> / 2 ^ 49 - 2 powr (- 1073)
             \<le> height (insetRect r k)"
  proof -
    have "2 / 100 * fl (y1 r - y0 r) - max \<bar>y0 r\<bar> \<bar>y1 r\<bar> / 2 ^ 49 - 2 powr (- 1073)
            \<le> fl (fl (y1 r - appliedInset r k) - fl (y0 r + appliedInset r k))"
      by (rule remaining_extent [OF d(2) d(4) b(1) ay sy])
    moreover have "(0.02::real) = 2 / 100" by simp
    ultimately show ?thesis by (simp only: height_def insetRect_fields)
  qed
  have mi: "maxInset r = fl (min (width r) (height r) * fl 0.49)" by (simp add: maxInset_def)
  note f = insetRect_fields [of r k]
  from mi appliedInset_min [OF assms(4), of r] b ax ay f x y ex ey show ?thesis
    by (intro conjI)
qed

lemma fl_half_int:
  assumes "\<bar>n\<bar> < 2 ^ 53"
  shows "fl (of_int n / 2) = of_int n / 2"
  using fl_repr [OF assms, of "- 1"] by (simp add: powr_minus inverse_eq_divide)

lemma fl_small:
  "fl 1 = 1" "fl 2 = 2" "fl 3 = 3" "fl 4 = 4" "fl 5 = 5" "fl 6 = 6" "fl 8 = 8" "fl 10 = 10"
  "fl (1 / 2) = 1 / 2" "fl (3 / 2) = 3 / 2" "fl (5 / 2) = 5 / 2" "fl (7 / 2) = 7 / 2"
  "fl (9 / 2) = 9 / 2"
  using fl_int [of 1] fl_int [of 2] fl_int [of 3] fl_int [of 4] fl_int [of 5] fl_int [of 6]
    fl_int [of 8] fl_int [of 10] fl_half_int [of 1] fl_half_int [of 3] fl_half_int [of 5]
    fl_half_int [of 7] fl_half_int [of 9]
  by simp_all

lemma fl_evals_inset5:
  "fl 5 = 5"
  "fl (49 / 100) = 2206763817411543 / 4503599627370496"
  "fl (11033819087057715 / 4503599627370496) = 2758454771764429 / 1125899906842624"
  "fl (2758454771764429 / 1125899906842624) = 2758454771764429 / 1125899906842624"
  "fl (2871044762448691 / 1125899906842624) = 2871044762448691 / 1125899906842624"
  "fl (56294995342131 / 562949953421312) = 56294995342131 / 562949953421312"
proof -
  show "fl 5 = 5"
    by (subst fl_eval_pow [where n = 50]) (simp_all add: rne_def Let_def)
  show "fl (49 / 100) = 2206763817411543 / 4503599627370496"
    by (subst fl_eval_pow [where n = 54]) (simp_all add: rne_def Let_def)
  show "fl (11033819087057715 / 4503599627370496) = 2758454771764429 / 1125899906842624"
    by (subst fl_eval_pow [where n = 51]) (simp_all add: rne_def Let_def)
  show "fl (2758454771764429 / 1125899906842624) = 2758454771764429 / 1125899906842624"
    by (subst fl_eval_pow [where n = 51]) (simp_all add: rne_def Let_def)
  show "fl (2871044762448691 / 1125899906842624) = 2871044762448691 / 1125899906842624"
    by (subst fl_eval_pow [where n = 51]) (simp_all add: rne_def Let_def)
  show "fl (56294995342131 / 562949953421312) = 56294995342131 / 562949953421312"
    by (subst fl_eval_pow [where n = 56]) (simp_all add: rne_def Let_def)
qed


text \<open>
  The share of 2 percent of the claim is lost to rounding: the square of side 5 has
  \<open>maxInset\<close> just above \<open>0.49 \<times> 5\<close> (the product is a tie and rounds up), and with an inset
  of 3 the result is narrower than \<open>0.02 \<times> 5\<close>.
\<close>

theorem insetRect_two_percent_counterexample:
  "rect_doubles \<lparr>x0 = 0, y0 = 0, x1 = 5, y1 = 5\<rparr>
 \<and> 0 \<le> width \<lparr>x0 = 0, y0 = 0, x1 = 5, y1 = 5\<rparr>
 \<and> 0 \<le> height \<lparr>x0 = 0, y0 = 0, x1 = 5, y1 = 5\<rparr>
 \<and> width \<lparr>x0 = 0, y0 = 0, x1 = 5, y1 = 5\<rparr> = 5
 \<and> width (insetRect \<lparr>x0 = 0, y0 = 0, x1 = 5, y1 = 5\<rparr> 3) = 56294995342131 / 562949953421312
 \<and> width (insetRect \<lparr>x0 = 0, y0 = 0, x1 = 5, y1 = 5\<rparr> 3)
       < 0.02 * width \<lparr>x0 = 0, y0 = 0, x1 = 5, y1 = 5\<rparr>"
  using DBL_MAX_large
  by (simp add: width_def height_def maxInset_def appliedInset_def clamp_std_def insetRect_def
        Let_def fl_evals_inset5 rect_doubles_def double_def)

lemma fl_evals_inset42:
  "fl (2206763817411543 / 2251799813685248) = 2206763817411543 / 2251799813685248"
  "fl (6800435437329449 / 2251799813685248) = 6800435437329449 / 2251799813685248"
  "fl (2296835809958953 / 2251799813685248) = 2296835809958953 / 2251799813685248"
proof -
  show "fl (2206763817411543 / 2251799813685248) = 2206763817411543 / 2251799813685248"
    by (subst fl_eval_pow [where n = 53]) (simp_all add: rne_def Let_def)
  show "fl (6800435437329449 / 2251799813685248) = 6800435437329449 / 2251799813685248"
    by (subst fl_eval_pow [where n = 51]) (simp_all add: rne_def Let_def)
  show "fl (2296835809958953 / 2251799813685248) = 2296835809958953 / 2251799813685248"
    by (subst fl_eval_pow [where n = 52]) (simp_all add: rne_def Let_def)
qed

theorem insetRect_never_inverts_witness:
  "rect_doubles \<lparr>x0 = 0, y0 = 0, x1 = 4, y1 = 2\<rparr>
 \<and> 0 \<le> width \<lparr>x0 = 0, y0 = 0, x1 = 4, y1 = 2\<rparr>
 \<and> 0 \<le> height \<lparr>x0 = 0, y0 = 0, x1 = 4, y1 = 2\<rparr>
 \<and> x1 \<lparr>x0 = 0, y0 = 0, x1 = 4, y1 = 2\<rparr> - x0 \<lparr>x0 = 0, y0 = 0, x1 = 4, y1 = 2\<rparr> \<le> DBL_MAX
 \<and> y1 \<lparr>x0 = 0, y0 = 0, x1 = 4, y1 = 2\<rparr> - y0 \<lparr>x0 = 0, y0 = 0, x1 = 4, y1 = 2\<rparr> \<le> DBL_MAX
 \<and> appliedInset \<lparr>x0 = 0, y0 = 0, x1 = 4, y1 = 2\<rparr> 100
     = maxInset \<lparr>x0 = 0, y0 = 0, x1 = 4, y1 = 2\<rparr>
 \<and> 0 < appliedInset \<lparr>x0 = 0, y0 = 0, x1 = 4, y1 = 2\<rparr> 100
 \<and> x0 (insetRect \<lparr>x0 = 0, y0 = 0, x1 = 4, y1 = 2\<rparr> 100)
     \<le> x1 (insetRect \<lparr>x0 = 0, y0 = 0, x1 = 4, y1 = 2\<rparr> 100)
 \<and> y0 (insetRect \<lparr>x0 = 0, y0 = 0, x1 = 4, y1 = 2\<rparr> 100)
     \<le> y1 (insetRect \<lparr>x0 = 0, y0 = 0, x1 = 4, y1 = 2\<rparr> 100)"
proof -
  let ?r = "\<lparr>x0 = 0, y0 = 0, x1 = 4, y1 = 2\<rparr>"
  have g: "rect_doubles ?r"
    using DBL_MAX_large by (simp add: rect_doubles_def double_def fl_small)
  have a: "0 \<le> width ?r" by (simp add: width_def fl_small)
  have b: "0 \<le> height ?r" by (simp add: height_def fl_small)
  have c: "(0::real) \<le> 100" by simp
  have d: "x1 ?r - x0 ?r \<le> DBL_MAX" using DBL_MAX_large by simp
  have e: "y1 ?r - y0 ?r \<le> DBL_MAX" using DBL_MAX_large by simp
  have m: "maxInset ?r = 2206763817411543 / 2251799813685248"
    by (simp add: maxInset_def width_def height_def fl_small fl_049 fl_evals_inset42)
  from insetRect_never_inverts [OF g a b c d e]
  have t: "appliedInset ?r 100 = min 100 (maxInset ?r)"
    and x: "x0 (insetRect ?r 100) \<le> x1 (insetRect ?r 100)"
    and y: "y0 (insetRect ?r 100) \<le> y1 (insetRect ?r 100)"
    by blast+
  from t m have "appliedInset ?r 100 = maxInset ?r" "0 < appliedInset ?r 100" by simp_all
  with g a b d e x y show ?thesis by simp
qed

lemma centre_shift_bound:
  fixes a p q :: real
  assumes g: "on_grid p" "on_grid q" "on_grid a" and a: "0 \<le> a" and h: "2 * a \<le> q - p"
  shows "\<bar>fl (fl (fl (p + a) + fl (q - a)) * 0.5) - fl (fl (p + q) * 0.5)\<bar>
           \<le> max \<bar>p\<bar> \<bar>q\<bar> / 2 ^ 50"
proof -
  define M where "M = max \<bar>p\<bar> \<bar>q\<bar>"
  define e where "e = M / 2 ^ 53"
  have M: "\<bar>p\<bar> \<le> M" "\<bar>q\<bar> \<le> M" "0 \<le> M" by (simp_all add: M_def)
  have e: "0 \<le> e" "4 * e \<le> M" using M(3) by (simp_all add: e_def field_simps)
  have s0: "\<bar>p + a\<bar> \<le> M" and s1: "\<bar>q - a\<bar> \<le> M" using a h M by linarith+
  have g0: "on_grid (p + a)" and g1: "on_grid (q - a)" and g2: "on_grid (p + q)"
    using g by (simp_all add: on_grid_add on_grid_diff)
  show ?thesis
  proof (cases "2 powr (- 1022) \<le> M")
    case False
    have "(2::real) powr (- 1021) = 2 * 2 powr (- 1022)" by (simp add: powr_minus)
    with False have small: "M < 2 powr (- 1022)" "M < 2 powr (- 1021)" using M(3) by simp_all
    have "fl (p + a) = p + a" using g0 s0 small(2) by (intro fl_grid_small) simp_all
    moreover have "fl (q - a) = q - a" using g1 s1 small(2) by (intro fl_grid_small) simp_all
    ultimately have "fl (p + a) + fl (q - a) = p + q" by simp
    then show ?thesis using M(3) by (simp add: M_def [symmetric])
  next
    case True
    have "(2::real) powr (- 1075) = 2 powr (- 1022) / 2 ^ 53" by (simp add: powr_minus)
    also have "\<dots> \<le> e" unfolding e_def using True by (simp add: divide_right_mono)
    finally have fl2: "2 powr (- 1075) \<le> 2 * e" using e(1) by linarith
    have "\<bar>fl (p + a) - (p + a)\<bar> \<le> \<bar>p + a\<bar> / 2 ^ 53" by (rule fl_error_grid [OF g0])
    also have "\<dots> \<le> e" unfolding e_def using s0 by (simp add: divide_right_mono)
    finally have e0: "\<bar>fl (p + a) - (p + a)\<bar> \<le> e" .
    have "\<bar>fl (q - a) - (q - a)\<bar> \<le> \<bar>q - a\<bar> / 2 ^ 53" by (rule fl_error_grid [OF g1])
    also have "\<dots> \<le> e" unfolding e_def using s1 by (simp add: divide_right_mono)
    finally have e1: "\<bar>fl (q - a) - (q - a)\<bar> \<le> e" .
    define t' where "t' = fl (p + a) + fl (q - a)"
    have gt: "on_grid t'" unfolding t'_def by (intro on_grid_add on_grid_fl)
    have tt: "\<bar>t' - (p + q)\<bar> \<le> 2 * e" unfolding t'_def using e0 e1 by linarith
    have t3: "\<bar>t'\<bar> \<le> 3 * M" using tt M e by linarith
    have pq: "\<bar>p + q\<bar> \<le> 2 * M" using M by linarith
    have "\<bar>fl t' - t'\<bar> \<le> \<bar>t'\<bar> / 2 ^ 53" by (rule fl_error_grid [OF gt])
    also have "\<dots> \<le> 3 * e" unfolding e_def using t3 by (simp add: field_simps)
    finally have f1: "\<bar>fl t' - t'\<bar> \<le> 3 * e" .
    have "\<bar>fl (p + q) - (p + q)\<bar> \<le> \<bar>p + q\<bar> / 2 ^ 53" by (rule fl_error_grid [OF g2])
    also have "\<dots> \<le> 2 * e" unfolding e_def using pq by (simp add: field_simps)
    finally have f2: "\<bar>fl (p + q) - (p + q)\<bar> \<le> 2 * e" .
    have T1: "\<bar>fl t' * 0.5\<bar> \<le> 2 * M" using f1 tt pq e by (simp add: abs_mult)
    have T2: "\<bar>fl (p + q) * 0.5\<bar> \<le> 2 * M" using f2 pq e by (simp add: abs_mult)
    have "\<bar>fl t' * 0.5\<bar> / 2 ^ 53 \<le> 2 * e" unfolding e_def using T1 by (simp add: field_simps)
    from fl_error_floor [OF this fl2]
    have g1: "\<bar>fl (fl t' * 0.5) - fl t' * 0.5\<bar> \<le> 2 * e" .
    have "\<bar>fl (p + q) * 0.5\<bar> / 2 ^ 53 \<le> 2 * e" unfolding e_def using T2 by (simp add: field_simps)
    from fl_error_floor [OF this fl2]
    have g2: "\<bar>fl (fl (p + q) * 0.5) - fl (p + q) * 0.5\<bar> \<le> 2 * e" .
    have "\<bar>fl (fl t' * 0.5) - fl (fl (p + q) * 0.5)\<bar> \<le> 8 * e"
      using g1 g2 f1 f2 tt e by (simp add: abs_le_iff)
    also have "8 * e = M / 2 ^ 50" by (simp add: e_def)
    finally show ?thesis by (simp only: t'_def M_def)
  qed
qed

text \<open>
  Claim C9, as the code has it. For every rectangle whose bounds are doubles, of
  non-negative (finite) width and height with finite sums of opposite bounds, and every
  inset \<open>k\<close> (a double): opposite bounds move by the same inset applied, so their exact sum
  is kept; each moved bound and the centre are rounded, and the centre of the result
  differs from the centre of the rectangle by at most \<open>max |x0| |x1| / 2 ^ 50\<close>,
  respectively \<open>max |y0| |y1| / 2 ^ 50\<close>.
\<close>

theorem insetRect_preserves_centre:
  assumes "rect_doubles r" and "double k" and "0 \<le> width r" and "0 \<le> height r"
    and "x1 r - x0 r \<le> DBL_MAX" and "y1 r - y0 r \<le> DBL_MAX"
    and "\<bar>x0 r + x1 r\<bar> \<le> 2 ^ 1023" and "\<bar>y0 r + y1 r\<bar> \<le> 2 ^ 1023"
  shows "x0 (insetRect r k) = fl (x0 r + appliedInset r k)
       \<and> x1 (insetRect r k) = fl (x1 r - appliedInset r k)
       \<and> y0 (insetRect r k) = fl (y0 r + appliedInset r k)
       \<and> y1 (insetRect r k) = fl (y1 r - appliedInset r k)
       \<and> (x0 r + appliedInset r k) + (x1 r - appliedInset r k) = x0 r + x1 r
       \<and> (y0 r + appliedInset r k) + (y1 r - appliedInset r k) = y0 r + y1 r
       \<and> \<bar>centreX (insetRect r k) - centreX r\<bar> \<le> max \<bar>x0 r\<bar> \<bar>x1 r\<bar> / 2 ^ 50
       \<and> \<bar>centreY (insetRect r k) - centreY r\<bar> \<le> max \<bar>y0 r\<bar> \<bar>y1 r\<bar> / 2 ^ 50"
proof -
  note g = rect_doubles_grid [OF assms(1)]
  have ga: "on_grid (appliedInset r k)"
    using assms(2) by (intro appliedInset_grid double_on_grid)
  note b = appliedInset_bounds [OF assms(3,4), of k]
  note h = maxInset_half [OF assms(1,3,4)]
  have ax: "2 * appliedInset r k \<le> x1 r - x0 r" using b(2) h(1) by linarith
  have ay: "2 * appliedInset r k \<le> y1 r - y0 r" using b(2) h(2) by linarith
  have cx: "\<bar>centreX (insetRect r k) - centreX r\<bar> \<le> max \<bar>x0 r\<bar> \<bar>x1 r\<bar> / 2 ^ 50"
    unfolding centreX_def insetRect_fields by (rule centre_shift_bound [OF g(1) g(3) ga b(1) ax])
  have cy: "\<bar>centreY (insetRect r k) - centreY r\<bar> \<le> max \<bar>y0 r\<bar> \<bar>y1 r\<bar> / 2 ^ 50"
    unfolding centreY_def insetRect_fields by (rule centre_shift_bound [OF g(2) g(4) ga b(1) ay])
  from cx cy show ?thesis by (simp add: insetRect_fields)
qed

theorem insetRect_preserves_centre_witness:
  "rect_doubles \<lparr>x0 = 1, y0 = 2, x1 = 5, y1 = 4\<rparr> \<and> double (1 / 2)
 \<and> 0 \<le> width \<lparr>x0 = 1, y0 = 2, x1 = 5, y1 = 4\<rparr>
 \<and> 0 \<le> height \<lparr>x0 = 1, y0 = 2, x1 = 5, y1 = 4\<rparr>
 \<and> appliedInset \<lparr>x0 = 1, y0 = 2, x1 = 5, y1 = 4\<rparr> (1 / 2) = 1 / 2
 \<and> \<bar>centreX (insetRect \<lparr>x0 = 1, y0 = 2, x1 = 5, y1 = 4\<rparr> (1 / 2))
      - centreX \<lparr>x0 = 1, y0 = 2, x1 = 5, y1 = 4\<rparr>\<bar> \<le> 5 / 2 ^ 50
 \<and> \<bar>centreY (insetRect \<lparr>x0 = 1, y0 = 2, x1 = 5, y1 = 4\<rparr> (1 / 2))
      - centreY \<lparr>x0 = 1, y0 = 2, x1 = 5, y1 = 4\<rparr>\<bar> \<le> 4 / 2 ^ 50"
proof -
  let ?r = "\<lparr>x0 = 1, y0 = 2, x1 = 5, y1 = 4\<rparr>"
  have r: "rect_doubles ?r"
    using DBL_MAX_large by (simp add: rect_doubles_def double_def fl_small)
  have k: "double (1 / 2)" using DBL_MAX_large by (simp add: double_def fl_small)
  have a: "0 \<le> width ?r" by (simp add: width_def fl_small)
  have b: "0 \<le> height ?r" by (simp add: height_def fl_small)
  have d: "x1 ?r - x0 ?r \<le> DBL_MAX" using DBL_MAX_large by simp
  have e: "y1 ?r - y0 ?r \<le> DBL_MAX" using DBL_MAX_large by simp
  have f: "\<bar>x0 ?r + x1 ?r\<bar> \<le> 2 ^ 1023" by simp
  have g: "\<bar>y0 ?r + y1 ?r\<bar> \<le> 2 ^ 1023" by simp
  have i: "appliedInset ?r (1 / 2) = 1 / 2"
    by (simp add: appliedInset_def clamp_std_def maxInset_def width_def height_def fl_small
          fl_049 fl_evals_inset42)
  from insetRect_preserves_centre [OF r k a b d e f g]
  have "\<bar>centreX (insetRect ?r (1 / 2)) - centreX ?r\<bar> \<le> max \<bar>x0 ?r\<bar> \<bar>x1 ?r\<bar> / 2 ^ 50"
    and "\<bar>centreY (insetRect ?r (1 / 2)) - centreY ?r\<bar> \<le> max \<bar>y0 ?r\<bar> \<bar>y1 ?r\<bar> / 2 ^ 50"
    by blast+
  with r k a b i show ?thesis by simp
qed

lemma fl_evals_inset03:
  "fl (3 / 10) = 5404319552844595 / 18014398509481984"
  "fl (3 / 100) = 1080863910568919 / 36028797018963968"
  "fl (5404319552844595 / 18014398509481984) = 5404319552844595 / 18014398509481984"
  "fl (1080863910568919 / 36028797018963968) = 1080863910568919 / 36028797018963968"
  "fl (11926056846947181551755438160085 / 81129638414606681695789005144064)
     = 5296233161787703 / 36028797018963968"
  "fl (9727775195120271 / 36028797018963968) = 607985949695017 / 2251799813685248"
  "fl (10808639105689191 / 36028797018963968) = 1351079888211149 / 4503599627370496"
  "fl (1351079888211149 / 9007199254740992) = 1351079888211149 / 9007199254740992"
  "fl (5404319552844595 / 36028797018963968) = 5404319552844595 / 36028797018963968"
proof -
  show "fl (3 / 10) = 5404319552844595 / 18014398509481984"
    by (subst fl_eval_pow [where n = 54]) (simp_all add: rne_def Let_def)
  show "fl (3 / 100) = 1080863910568919 / 36028797018963968"
    by (subst fl_eval_pow [where n = 58]) (simp_all add: rne_def Let_def)
  show "fl (5404319552844595 / 18014398509481984) = 5404319552844595 / 18014398509481984"
    by (subst fl_eval_pow [where n = 54]) (simp_all add: rne_def Let_def)
  show "fl (1080863910568919 / 36028797018963968) = 1080863910568919 / 36028797018963968"
    by (subst fl_eval_pow [where n = 58]) (simp_all add: rne_def Let_def)
  show "fl (11926056846947181551755438160085 / 81129638414606681695789005144064)
     = 5296233161787703 / 36028797018963968"
    by (subst fl_eval_pow [where n = 55]) (simp_all add: rne_def Let_def)
  show "fl (9727775195120271 / 36028797018963968) = 607985949695017 / 2251799813685248"
    by (subst fl_eval_pow [where n = 54]) (simp_all add: rne_def Let_def)
  show "fl (10808639105689191 / 36028797018963968) = 1351079888211149 / 4503599627370496"
    by (subst fl_eval_pow [where n = 54]) (simp_all add: rne_def Let_def)
  show "fl (1351079888211149 / 9007199254740992) = 1351079888211149 / 9007199254740992"
    by (subst fl_eval_pow [where n = 55]) (simp_all add: rne_def Let_def)
  show "fl (5404319552844595 / 36028797018963968) = 5404319552844595 / 36028797018963968"
    by (subst fl_eval_pow [where n = 55]) (simp_all add: rne_def Let_def)
qed


text \<open>
  The centres are not equal in general: for the square between 0 and the double nearest
  to 0.3, inset by the double nearest to 0.03, the centre moves from
  \<open>5404319552844595 / 2 ^ 55\<close> to the next double.
\<close>

theorem insetRect_centre_counterexample:
  "rect_doubles \<lparr>x0 = 0, y0 = 0, x1 = fl 0.3, y1 = fl 0.3\<rparr> \<and> double (fl 0.03)
 \<and> 0 \<le> width \<lparr>x0 = 0, y0 = 0, x1 = fl 0.3, y1 = fl 0.3\<rparr>
 \<and> 0 \<le> height \<lparr>x0 = 0, y0 = 0, x1 = fl 0.3, y1 = fl 0.3\<rparr>
 \<and> appliedInset \<lparr>x0 = 0, y0 = 0, x1 = fl 0.3, y1 = fl 0.3\<rparr> (fl 0.03) = fl 0.03
 \<and> centreX \<lparr>x0 = 0, y0 = 0, x1 = fl 0.3, y1 = fl 0.3\<rparr>
       = 5404319552844595 / 2 ^ 55
 \<and> centreX (insetRect \<lparr>x0 = 0, y0 = 0, x1 = fl 0.3, y1 = fl 0.3\<rparr> (fl 0.03))
       = 5404319552844596 / 2 ^ 55
 \<and> centreX (insetRect \<lparr>x0 = 0, y0 = 0, x1 = fl 0.3, y1 = fl 0.3\<rparr> (fl 0.03))
       \<noteq> centreX \<lparr>x0 = 0, y0 = 0, x1 = fl 0.3, y1 = fl 0.3\<rparr>"
  using DBL_MAX_large
  by (simp add: width_def height_def centreX_def maxInset_def appliedInset_def clamp_std_def
        insetRect_def Let_def fl_evals_inset03 fl_049 rect_doubles_def double_def)


section \<open>The running vertex counter of the text export\<close>

lemma vcount_append: "vcount (xs @ ys) = vcount xs + vcount ys"
  by (induction xs rule: vcount.induct) auto

lemma fcount_append: "fcount (xs @ ys) = fcount xs + fcount ys"
  by (induction xs rule: fcount.induct) auto

lemma faces_in_range_append:
  "faces_in_range n (xs @ ys) = (faces_in_range n xs \<and> faces_in_range (n + vcount xs) ys)"
  by (induction n xs rule: faces_in_range.induct) auto

lemma writePrism_counter:
  "snd (writePrism b0 b1 b2 b3 baseZ topZ (ofs, v)) = v + 8"
  by (simp add: Let_def)

lemma obj_inv_writePrism:
  assumes "obj_inv st"
  shows "obj_inv (writePrism b0 b1 b2 b3 baseZ topZ st)"
proof -
  obtain ofs v where st: "st = (ofs, v)" by (cases st)
  from assms st have v: "v = 1 + vcount ofs" and d: "8 dvd vcount ofs"
    and f: "8 * fcount ofs = 12 * vcount ofs" and r: "faces_in_range 0 ofs"
    by (simp_all add: obj_inv_def)
  show ?thesis
    using v d f r
    by (simp add: st obj_inv_def vcount_append fcount_append faces_in_range_append Let_def)
       presburger
qed

lemma obj_inv_usemtl: "obj_inv st \<Longrightarrow> obj_inv (usemtl m st)"
  by (cases st) (simp add: obj_inv_def vcount_append fcount_append faces_in_range_append)

lemma obj_inv_writeRectPrism: "obj_inv st \<Longrightarrow> obj_inv (writeRectPrism r baseZ topZ st)"
  by (simp add: writeRectPrism_def obj_inv_writePrism)

lemma obj_inv_emitStandard: "obj_inv st \<Longrightarrow> obj_inv (emitStandard_obj b st)"
  by (simp add: emitStandard_obj_def Let_def obj_inv_writeRectPrism)

lemma obj_inv_emitPark: "obj_inv st \<Longrightarrow> obj_inv (emitPark_obj fp st)"
  by (simp add: emitPark_obj_def Let_def obj_inv_writeRectPrism)

lemma obj_inv_emitSchool: "obj_inv st \<Longrightarrow> obj_inv (emitSchool_obj b st)"
  by (simp add: emitSchool_obj_def Let_def obj_inv_writeRectPrism)

lemma obj_inv_emitHospital: "obj_inv st \<Longrightarrow> obj_inv (emitHospital_obj b st)"
  by (simp add: emitHospital_obj_def Let_def obj_inv_writeRectPrism)

lemma obj_inv_building: "obj_inv st \<Longrightarrow> obj_inv (obj_building b st)"
  by (simp add: obj_building_def Let_def obj_inv_usemtl obj_inv_emitStandard
        obj_inv_emitPark obj_inv_emitSchool obj_inv_emitHospital)

lemma obj_inv_road: "obj_inv st \<Longrightarrow> obj_inv (obj_road road st)"
  by (simp add: obj_road_def Let_def obj_inv_usemtl obj_inv_writePrism)

lemma obj_inv_fold_building: "obj_inv st \<Longrightarrow> obj_inv (fold obj_building bs st)"
  by (induction bs arbitrary: st) (simp_all add: obj_inv_building)

lemma obj_inv_fold_road: "obj_inv st \<Longrightarrow> obj_inv (fold obj_road rs st)"
  by (induction rs arbitrary: st) (simp_all add: obj_inv_road)

lemma obj_inv_init: "obj_inv (if hasMtl then [Mtllib n] else [], 1)"
  by (simp add: obj_inv_def)

text \<open>
  Claim C5. When the output stream opens, the text export returns; the counter, which
  starts at 1 and grows by 8 with each box of 8 vertex lines and 12 face lines, ends at
  one more than the number of vertex lines written; and every face line refers to
  vertices of the box it closes, between that box's first offset and the counter after
  the box, all of them already written.
\<close>

theorem saveOBJ_vertex_counter:
  "\<exists>ofs vertexOffset.
     saveOBJ mtl_ok True filename c = Some (ofs, vertexOffset)
   \<and> vertexOffset = 1 + vcount ofs
   \<and> vertexOffset - 1 = vcount ofs
   \<and> vertexOffset = 1 + 8 * (fcount ofs div 12)
   \<and> 12 dvd fcount ofs
   \<and> faces_in_range 0 ofs"
proof -
  define st where "st = fold obj_road (roads c) (fold obj_building (buildings c)
     (if mtl_ok then [Mtllib (filenameOnly (replaceExtension filename ''.mtl''))] else [], 1))"
  obtain ofs v where ov: "st = (ofs, v)" by (cases st)
  have inv: "obj_inv st"
    unfolding st_def by (intro obj_inv_fold_road obj_inv_fold_building obj_inv_init)
  have s: "saveOBJ mtl_ok True filename c = Some (ofs, v)"
    using ov by (simp add: saveOBJ_def Let_def st_def)
  from inv ov have a: "v = 1 + vcount ofs" and d: "8 dvd vcount ofs"
    and f: "8 * fcount ofs = 12 * vcount ofs" and r: "faces_in_range 0 ofs"
    by (simp_all add: obj_inv_def)
  from d obtain q where q: "vcount ofs = 8 * q" by (auto simp: dvd_def)
  with f have fq: "fcount ofs = 12 * q" by simp
  with q a have b: "v = 1 + 8 * (fcount ofs div 12)" by simp
  have c: "v - 1 = vcount ofs" using a by simp
  have e: "12 dvd fcount ofs" using fq by simp
  from s a c b e r show ?thesis by blast
qed

section \<open>The default material never receives geometry\<close>

lemma appendRectPrismFor_other:
  "mat \<noteq> k \<Longrightarrow> appendRectPrismFor mat r baseZ topZ m k = m k"
  by (simp add: appendRectPrismFor_def)

lemma materialForZone_default: "materialForZone z = ''mat_default'' \<longleftrightarrow> z = NoneZ"
  by (cases z) simp_all

lemma emitStandard_gltf_default:
  "zone b \<noteq> NoneZ \<Longrightarrow> emitStandard_gltf b m ''mat_default'' = m ''mat_default''"
  by (simp add: emitStandard_gltf_def Let_def appendRectPrismFor_other materialForZone_default)

lemma emitPark_gltf_default: "emitPark_gltf fp m ''mat_default'' = m ''mat_default''"
  by (simp add: emitPark_gltf_def Let_def appendRectPrismFor_other)

lemma emitSchool_gltf_default:
  "zone b \<noteq> NoneZ \<Longrightarrow> emitSchool_gltf b m ''mat_default'' = m ''mat_default''"
  by (simp add: emitSchool_gltf_def Let_def appendRectPrismFor_other materialForZone_default)

lemma emitHospital_gltf_default:
  "zone b \<noteq> NoneZ \<Longrightarrow> emitHospital_gltf b m ''mat_default'' = m ''mat_default''"
  by (simp add: emitHospital_gltf_def Let_def appendRectPrismFor_other materialForZone_default)

lemma gltf_building_default: "gltf_building b m ''mat_default'' = m ''mat_default''"
  by (simp add: gltf_building_def emitStandard_gltf_default emitPark_gltf_default
        emitSchool_gltf_default emitHospital_gltf_default)

lemma gltf_road_default: "gltf_road road m ''mat_default'' = m ''mat_default''"
  by (simp add: gltf_road_def Let_def appendRectPrismFor_other)

lemma fold_gltf_building_default:
  "fold gltf_building bs m ''mat_default'' = m ''mat_default''"
  by (induction bs arbitrary: m) (simp_all add: gltf_building_default)

lemma fold_gltf_road_default:
  "fold gltf_road rs m ''mat_default'' = m ''mat_default''"
  by (induction rs arbitrary: m) (simp_all add: gltf_road_default)

lemma meshByMaterial_default: "meshByMaterial c ''mat_default'' = None"
  by (simp add: meshByMaterial_def fold_gltf_road_default fold_gltf_building_default)

lemma materials_has_buffer:
  "d \<in> set (materials m) \<Longrightarrow> m (mat_name d) \<noteq> None"
  by (auto simp: materials_def split: option.splits)

lemma gltf_building_NoneZ: "zone b = NoneZ \<Longrightarrow> gltf_building b m = m"
  by (simp add: gltf_building_def)

text \<open>
  Claim C10. For every city, the material list that the binary export keeps (the palette
  entries whose buffer has indices) does not contain \<^verbatim>\<open>mat_default\<close>: no buffer is ever
  stored under that name, because buildings of zone None are skipped, the other zones map
  to their own materials, parks use \<^verbatim>\<open>mat_green\<close> and roads \<^verbatim>\<open>mat_road\<close>.
\<close>

theorem default_material_filtered_out:
  "''mat_default'' \<notin> set (map mat_name (materials (meshByMaterial c)))
   \<and> meshByMaterial c ''mat_default'' = None"
proof -
  have "''mat_default'' \<notin> set (map mat_name (materials (meshByMaterial c)))"
  proof
    assume "''mat_default'' \<in> set (map mat_name (materials (meshByMaterial c)))"
    then obtain d where d: "d \<in> set (materials (meshByMaterial c))"
      and n: "mat_name d = ''mat_default''" by auto
    from materials_has_buffer [OF d] n show False
      by (simp add: meshByMaterial_default)
  qed
  then show ?thesis by (simp add: meshByMaterial_default)
qed

section \<open>Degenerate road segments\<close>










section \<open>Box extrusion: counts and face normals\<close>

lemma updateBounds_fields [simp]:
  "positions (updateBounds buf p) = positions buf"
  "normals (updateBounds buf p) = normals buf"
  "indices (updateBounds buf p) = indices buf"
  by (simp_all add: updateBounds_def split: prod.splits)

lemma pushPos_fields [simp]:
  "positions (pushPos p buf) = positions buf @ [vx p, vy p, vz p]"
  "normals (pushPos p buf) = normals buf"
  "indices (pushPos p buf) = indices buf"
  by (simp_all add: pushPos_def)

lemma pushNormal_fields [simp]:
  "positions (pushNormal n buf) = positions buf"
  "normals (pushNormal n buf) = normals buf @ [vx n, vy n, vz n]"
  "indices (pushNormal n buf) = indices buf"
  by (simp_all add: pushNormal_def)

lemma appendTriangle_positions:
  "positions (appendTriangle buf p0 p1 p2 n)
     = positions buf @ [vx p0, vy p0, vz p0, vx p1, vy p1, vz p1, vx p2, vy p2, vz p2]"
  by (simp add: appendTriangle_def Let_def)

lemma appendTriangle_normals:
  "normals (appendTriangle buf p0 p1 p2 n)
     = normals buf @ [vx n, vy n, vz n, vx n, vy n, vz n, vx n, vy n, vz n]"
  by (simp add: appendTriangle_def Let_def)

lemma appendTriangle_indices:
  "indices (appendTriangle buf p0 p1 p2 n)
     = indices buf @ [word_of_nat (length (positions buf) div 3),
                      word_of_nat (length (positions buf) div 3) + 1,
                      word_of_nat (length (positions buf) div 3) + 2]"
  by (simp add: appendTriangle_def Let_def)

lemma fold_appendTriangle_lengths:
  "length (positions (fold (\<lambda>t buf. appendTriangle buf (tri_p0 t) (tri_p1 t) (tri_p2 t) (tri_n t)) ts buf))
     = length (positions buf) + 9 * length ts
 \<and> length (normals (fold (\<lambda>t buf. appendTriangle buf (tri_p0 t) (tri_p1 t) (tri_p2 t) (tri_n t)) ts buf))
     = length (normals buf) + 9 * length ts
 \<and> length (indices (fold (\<lambda>t buf. appendTriangle buf (tri_p0 t) (tri_p1 t) (tri_p2 t) (tri_n t)) ts buf))
     = length (indices buf) + 3 * length ts"
  by (induction ts arbitrary: buf)
     (simp_all add: appendTriangle_positions appendTriangle_normals appendTriangle_indices)

lemma length_rectPrismTriangles: "length (rectPrismTriangles r baseZ topZ) = 12"
  by (simp add: rectPrismTriangles_def Let_def)

lemma appendRectPrism_lengths:
  "length (positions (appendRectPrism buf r baseZ topZ)) = length (positions buf) + 108"
  "length (normals (appendRectPrism buf r baseZ topZ)) = length (normals buf) + 108"
  "length (indices (appendRectPrism buf r baseZ topZ)) = length (indices buf) + 36"
  using fold_appendTriangle_lengths [of "rectPrismTriangles r baseZ topZ" buf]
  by (simp_all add: appendRectPrism_def length_rectPrismTriangles)

lemma writePrism_counts:
  "vcount (fst (writePrism b0 b1 b2 b3 baseZ topZ (ofs, v))) = vcount ofs + 8"
  "fcount (fst (writePrism b0 b1 b2 b3 baseZ topZ (ofs, v))) = fcount ofs + 12"
  by (simp_all add: Let_def vcount_append fcount_append)

lemma faceNormals_rectPrism:
  "remdups (map tri_n (rectPrismTriangles r baseZ topZ))
     = [\<lparr>vx = 0, vy = -1, vz = 0\<rparr>, \<lparr>vx = 0, vy = 1, vz = 0\<rparr>, \<lparr>vx = 1, vy = 0, vz = 0\<rparr>,
        \<lparr>vx = -1, vy = 0, vz = 0\<rparr>, \<lparr>vx = 0, vy = 0, vz = 1\<rparr>, \<lparr>vx = 0, vy = 0, vz = -1\<rparr>]"
  by (simp add: rectPrismTriangles_def Let_def)

lemma unit_normals_rectPrism: "list_all unit_normal (rectPrismTriangles r baseZ topZ)"
  by (simp add: rectPrismTriangles_def Let_def unit_normal_def dot_def)

lemma compatible_normals_rectPrism:
  "list_all (\<lambda>t. list_all (\<lambda>u. compatible_normals (tri_n t) (tri_n u))
                           (rectPrismTriangles r baseZ topZ))
            (rectPrismTriangles r baseZ topZ)"
  by (simp add: rectPrismTriangles_def Let_def compatible_normals_def opposite_def dot_def)

lemma boxCentroid_eq:
  "boxCentroid r baseZ topZ
     = \<lparr>vx = (x0 r + x1 r) / 2, vy = (baseZ + topZ) / 2, vz = (y0 r + y1 r) / 2\<rparr>"
  by (simp add: boxCentroid_def centroid_def prismCorners_def toGltfCoords_def)

lemma outward_rectPrism:
  assumes "x0 r < x1 r" and "y0 r < y1 r" and "baseZ < topZ"
  shows "list_all (outward (boxCentroid r baseZ topZ)) (rectPrismTriangles r baseZ topZ)"
  using assms
  by (simp add: boxCentroid_eq rectPrismTriangles_def Let_def outward_def dot_def vsub_def
        toGltfCoords_def field_simps)

lemma corners_rectPrism:
  "list_all (\<lambda>t. set (corners_of t) \<subseteq> set (prismCorners r baseZ topZ))
            (rectPrismTriangles r baseZ topZ)"
  by (simp add: rectPrismTriangles_def Let_def corners_of_def prismCorners_def)

lemma distinct_prismCorners:
  assumes "x0 r < x1 r" and "y0 r < y1 r" and "baseZ < topZ"
  shows "distinct (prismCorners r baseZ topZ)"
  using assms by (simp add: prismCorners_def toGltfCoords_def)

text \<open>
  Claim C2, as the code has it. Every call of \<^verbatim>\<open>writePrism\<close> writes 8 vertex lines and 12
  face lines, and every call of \<^verbatim>\<open>appendRectPrism\<close> appends 12 triangles (36 unshared
  vertex entries, all at the 8 corners of the box). The triangles carry 6 different
  normals, each of unit length, and any two of them are equal, opposite or orthogonal.
  All this holds for every extent. When the extent is valid (\<open>x0 < x1\<close>, \<open>y0 < y1\<close>,
  \<open>baseZ < topZ\<close>) the 8 corners are distinct and every normal of \<^verbatim>\<open>appendRectPrism\<close> points
  outward: its dot product with the vector from the centroid of the box to each corner
  of its triangle is positive.
\<close>

theorem box_extrusion_counts_and_normals:
  "vcount (fst (writePrism b0 b1 b2 b3 z z' (ofs, v))) = vcount ofs + 8
 \<and> fcount (fst (writePrism b0 b1 b2 b3 z z' (ofs, v))) = fcount ofs + 12
 \<and> length (rectPrismTriangles r baseZ topZ) = 12
 \<and> length (indices (appendRectPrism buf r baseZ topZ)) = length (indices buf) + 36
 \<and> length (positions (appendRectPrism buf r baseZ topZ)) = length (positions buf) + 108
 \<and> list_all (\<lambda>t. set (corners_of t) \<subseteq> set (prismCorners r baseZ topZ))
            (rectPrismTriangles r baseZ topZ)
 \<and> length (prismCorners r baseZ topZ) = 8
 \<and> length (remdups (map tri_n (rectPrismTriangles r baseZ topZ))) = 6
 \<and> list_all unit_normal (rectPrismTriangles r baseZ topZ)
 \<and> list_all (\<lambda>t. list_all (\<lambda>u. compatible_normals (tri_n t) (tri_n u))
                            (rectPrismTriangles r baseZ topZ))
            (rectPrismTriangles r baseZ topZ)
 \<and> (x0 r < x1 r \<and> y0 r < y1 r \<and> baseZ < topZ \<longrightarrow>
      distinct (prismCorners r baseZ topZ)
    \<and> list_all (outward (boxCentroid r baseZ topZ)) (rectPrismTriangles r baseZ topZ))"
proof -
  have n: "length (remdups (map tri_n (rectPrismTriangles r baseZ topZ))) = 6"
    by (simp add: faceNormals_rectPrism)
  have c: "length (prismCorners r baseZ topZ) = 8"
    by (simp add: prismCorners_def)
  have o: "x0 r < x1 r \<and> y0 r < y1 r \<and> baseZ < topZ \<longrightarrow>
      distinct (prismCorners r baseZ topZ)
    \<and> list_all (outward (boxCentroid r baseZ topZ)) (rectPrismTriangles r baseZ topZ)"
    using distinct_prismCorners [of r baseZ topZ] outward_rectPrism [of r baseZ topZ] by blast
  from writePrism_counts [of b0 b1 b2 b3 z z' ofs v]
       length_rectPrismTriangles [of r baseZ topZ]
       appendRectPrism_lengths [of buf r baseZ topZ]
       corners_rectPrism [of r baseZ topZ] c n
       unit_normals_rectPrism [of r baseZ topZ]
       compatible_normals_rectPrism [of r baseZ topZ] o
  show ?thesis by blast
qed

theorem box_extrusion_counts_and_normals_witness:
  "x0 \<lparr>x0 = 0, y0 = 0, x1 = 1, y1 = 1\<rparr> < x1 \<lparr>x0 = 0, y0 = 0, x1 = 1, y1 = 1\<rparr>
 \<and> y0 \<lparr>x0 = 0, y0 = 0, x1 = 1, y1 = 1\<rparr> < y1 \<lparr>x0 = 0, y0 = 0, x1 = 1, y1 = 1\<rparr>
 \<and> (0::real) < 3
 \<and> length (rectPrismTriangles \<lparr>x0 = 0, y0 = 0, x1 = 1, y1 = 1\<rparr> 0 3) = 12
 \<and> list_all unit_normal (rectPrismTriangles \<lparr>x0 = 0, y0 = 0, x1 = 1, y1 = 1\<rparr> 0 3)
 \<and> distinct (prismCorners \<lparr>x0 = 0, y0 = 0, x1 = 1, y1 = 1\<rparr> 0 3)
 \<and> list_all (outward (boxCentroid \<lparr>x0 = 0, y0 = 0, x1 = 1, y1 = 1\<rparr> 0 3))
             (rectPrismTriangles \<lparr>x0 = 0, y0 = 0, x1 = 1, y1 = 1\<rparr> 0 3)"
proof -
  have a: "x0 \<lparr>x0 = 0, y0 = 0, x1 = 1, y1 = 1\<rparr> < x1 \<lparr>x0 = 0, y0 = 0, x1 = 1, y1 = 1\<rparr>" by simp
  have b: "y0 \<lparr>x0 = 0, y0 = 0, x1 = 1, y1 = 1\<rparr> < y1 \<lparr>x0 = 0, y0 = 0, x1 = 1, y1 = 1\<rparr>" by simp
  have c: "(0::real) < 3" by simp
  show ?thesis
    using a b c box_extrusion_counts_and_normals [of _ _ _ _ _ _ _ _ "\<lparr>x0 = 0, y0 = 0, x1 = 1, y1 = 1\<rparr>" 0 3]
    by blast
qed

text \<open>
  The index order of the triangles is not part of the stored normals: taken in the
  coordinates of the binary export, where the remap mirrors the layout, the order of
  every triangle of \<^verbatim>\<open>appendRectPrism\<close> gives the direction opposite to the normal stored
  with it.
\<close>

lemma rectPrism_winding_opposes_normal:
  assumes "x0 r < x1 r" and "y0 r < y1 r" and "baseZ < topZ"
  shows "list_all (\<lambda>t. dot (cross (vsub (tri_p1 t) (tri_p0 t)) (vsub (tri_p2 t) (tri_p0 t)))
                           (tri_n t) < 0)
                  (rectPrismTriangles r baseZ topZ)"
proof -
  have "0 < (x1 r - x0 r) * (y1 r - y0 r)" "0 < (x1 r - x0 r) * (topZ - baseZ)"
    "0 < (y1 r - y0 r) * (topZ - baseZ)"
    using assms by (simp_all add: zero_less_mult_iff)
  then show ?thesis
    by (simp add: rectPrismTriangles_def Let_def cross_def vsub_def dot_def toGltfCoords_def
          algebra_simps)
qed

text \<open>
  The claim as stated fails in two ways. With the elevations inverted (\<open>baseZ = 1\<close>,
  \<open>topZ = 0\<close>) the third triangle of \<^verbatim>\<open>appendRectPrism\<close> for the unit square, which carries
  the normal \<open>(0, 1, 0)\<close> of the top face, lies below the centroid, and the normal points
  inward. And for the valid unit box the twelve faces of \<^verbatim>\<open>writePrism\<close> are all wound so
  that their normals point inward: the first face \<^verbatim>\<open>f 1 2 3\<close> lies in the bottom and has
  the normal \<open>(0, 0, 1)\<close>.
\<close>

lemma unitBox_lines:
  "obj_vertices unitBox
     = [(0, 0, 0), (1, 0, 0), (1, 1, 0), (0, 1, 0), (0, 0, 1), (1, 0, 1), (1, 1, 1), (0, 1, 1)]"
  "obj_faces unitBox
     = [(1, 2, 3), (1, 3, 4), (5, 8, 7), (5, 7, 6), (1, 5, 6), (1, 6, 2),
        (2, 6, 7), (2, 7, 3), (3, 7, 8), (3, 8, 4), (4, 8, 5), (4, 5, 1)]"
  by (simp_all add: unitBox_def writeRectPrism_def Let_def)

lemma unitBox_centroid: "obj_centroid unitBox = \<lparr>vx = 1 / 2, vy = 1 / 2, vz = 1 / 2\<rparr>"
  by (simp add: obj_centroid_def unitBox_lines centroid_def vec3_of_def)

lemma unitBox_triangles:
  "length (obj_triangles unitBox) = 12"
  "list_all (inward (obj_centroid unitBox)) (obj_triangles unitBox)"
  "tri_n (obj_triangles unitBox ! 0) = \<lparr>vx = 0, vy = 0, vz = 1\<rparr>"
  "tri_p0 (obj_triangles unitBox ! 0) = \<lparr>vx = 0, vy = 0, vz = 0\<rparr>"
  by (simp_all add: obj_triangles_def unitBox_lines unitBox_centroid Let_def resolvable_def
        wound_triangle_def vec3_of_def cross_def vsub_def dot_def inward_def)

theorem box_extrusion_counterexample:
  "\<not> outward (boxCentroid \<lparr>x0 = 0, y0 = 0, x1 = 1, y1 = 1\<rparr> 1 0)
              (rectPrismTriangles \<lparr>x0 = 0, y0 = 0, x1 = 1, y1 = 1\<rparr> 1 0 ! 2)
 \<and> length (obj_triangles unitBox) = 12
 \<and> list_all (inward (obj_centroid unitBox)) (obj_triangles unitBox)
 \<and> \<not> outward (obj_centroid unitBox) (obj_triangles unitBox ! 0)"
proof -
  have "\<not> outward (boxCentroid \<lparr>x0 = 0, y0 = 0, x1 = 1, y1 = 1\<rparr> 1 0)
              (rectPrismTriangles \<lparr>x0 = 0, y0 = 0, x1 = 1, y1 = 1\<rparr> 1 0 ! 2)"
    by (simp add: boxCentroid_eq rectPrismTriangles_def Let_def dot_def vsub_def toGltfCoords_def
        outward_def)
  moreover have "\<not> outward (obj_centroid unitBox) (obj_triangles unitBox ! 0)"
    by (simp add: outward_def unitBox_triangles unitBox_centroid vsub_def dot_def)
  ultimately show ?thesis by (simp add: unitBox_triangles)
qed


section \<open>Cross-format geometry: vertices of the text and the binary export\<close>

subsection \<open>Buildings\<close>

text \<open>
  Box by box, the binary export stores at the eight remapped corners what the text
  export writes as vertex lines; the four archetypes compute the same rectangles and
  elevations in both exporters, so after the loop over the buildings both hold the same
  set of vertices up to the remap.
\<close>

lemma obj_vertices_append: "obj_vertices (xs @ ys) = obj_vertices xs @ obj_vertices ys"
  by (induction xs rule: obj_vertices.induct) auto

lemma dvd3_Suc3: "3 dvd Suc (Suc (Suc n)) \<longleftrightarrow> 3 dvd n"
  by presburger

lemma not_dvd3_small: "\<not> 3 dvd Suc 0" "\<not> 3 dvd Suc (Suc 0)"
  by presburger+

lemma triples_append:
  "3 dvd length xs \<Longrightarrow> triples (xs @ ys) = triples xs @ triples ys"
  by (induction xs rule: triples.induct) (simp_all add: dvd3_Suc3 not_dvd3_small)

lemma obj_vertices_writeRectPrism:
  "set (obj_vertices (fst (writeRectPrism r baseZ topZ st)))
     = set (obj_vertices (fst st)) \<union> box_corners r baseZ topZ"
  by (cases st) (auto simp: writeRectPrism_def Let_def obj_vertices_append box_corners_def)

lemma obj_vertices_usemtl: "obj_vertices (fst (usemtl n st)) = obj_vertices (fst st)"
  by (cases st) (simp add: obj_vertices_append)


lemma set_gltf_vertices:
  "set (gltf_vertices m) =
     {p. \<exists>d buf. d \<in> set kMaterialPalette \<and> m (mat_name d) = Some buf
                 \<and> p \<in> set (triples (positions buf))}"
  unfolding gltf_vertices_def
  by (auto split: option.splits dest: sym)

lemma whole_triples_empty: "whole_triples Map.empty"
  by (simp add: whole_triples_def)

lemma bufferFor_whole: "whole_triples m \<Longrightarrow> 3 dvd length (positions (bufferFor m mat))"
  by (auto simp: whole_triples_def bufferFor_def emptyMeshBuffer_def split: option.splits)

lemma positions_appendRectPrism:
  "positions (appendRectPrism buf r baseZ topZ) =
     positions buf @
     concat (map (\<lambda>t. [vx (tri_p0 t), vy (tri_p0 t), vz (tri_p0 t),
                        vx (tri_p1 t), vy (tri_p1 t), vz (tri_p1 t),
                        vx (tri_p2 t), vy (tri_p2 t), vz (tri_p2 t)])
                 (rectPrismTriangles r baseZ topZ))"
proof -
  have "positions (fold (\<lambda>t buf. appendTriangle buf (tri_p0 t) (tri_p1 t) (tri_p2 t) (tri_n t)) ts buf)
        = positions buf @
          concat (map (\<lambda>t. [vx (tri_p0 t), vy (tri_p0 t), vz (tri_p0 t),
                        vx (tri_p1 t), vy (tri_p1 t), vz (tri_p1 t),
                        vx (tri_p2 t), vy (tri_p2 t), vz (tri_p2 t)]) ts)" for ts
    by (induction ts arbitrary: buf) (simp_all add: appendTriangle_positions)
  then show ?thesis by (simp add: appendRectPrism_def)
qed

lemma triples_appendRectPrism:
  assumes "3 dvd length (positions buf)"
  shows "set (triples (positions (appendRectPrism buf r baseZ topZ)))
           = set (triples (positions buf)) \<union> remap ` box_corners r baseZ topZ"
  using assms
  by (auto simp: positions_appendRectPrism triples_append rectPrismTriangles_def Let_def
        toGltfCoords_def box_corners_def)


lemma whole_triples_appendRectPrismFor:
  assumes "whole_triples m"
  shows "whole_triples (appendRectPrismFor mat r baseZ topZ m)"
proof -
  have "3 dvd length (positions (appendRectPrism (bufferFor m mat) r baseZ topZ))"
    using bufferFor_whole [OF assms, of mat]
    by (simp add: appendRectPrism_lengths)
  with assms show ?thesis
    by (auto simp: whole_triples_def appendRectPrismFor_def)
qed

lemma triples_bufferFor:
  "set (triples (positions (bufferFor m mat)))
     = {p. \<exists>buf. m mat = Some buf \<and> p \<in> set (triples (positions buf))}"
  by (cases "m mat") (simp_all add: bufferFor_def emptyMeshBuffer_def)

lemma gltf_vertices_appendRectPrismFor:
  assumes w: "whole_triples m" and mat: "mat \<in> set (map mat_name kMaterialPalette)"
  shows "set (gltf_vertices (appendRectPrismFor mat r baseZ topZ m))
           = set (gltf_vertices m) \<union> remap ` box_corners r baseZ topZ"
proof -
  let ?new = "appendRectPrism (bufferFor m mat) r baseZ topZ"
  have n: "set (triples (positions ?new))
             = {p. \<exists>buf. m mat = Some buf \<and> p \<in> set (triples (positions buf))}
               \<union> remap ` box_corners r baseZ topZ"
    using triples_appendRectPrism [OF bufferFor_whole [OF w, of mat], of r baseZ topZ]
    by (simp only: triples_bufferFor)
  from mat obtain d0 where d0: "d0 \<in> set kMaterialPalette" "mat_name d0 = mat" by auto
  show ?thesis
  proof (rule set_eqI)
    fix p
    show "p \<in> set (gltf_vertices (appendRectPrismFor mat r baseZ topZ m))
          \<longleftrightarrow> p \<in> set (gltf_vertices m) \<union> remap ` box_corners r baseZ topZ"
    proof
      assume "p \<in> set (gltf_vertices (appendRectPrismFor mat r baseZ topZ m))"
      then obtain d buf where d: "d \<in> set kMaterialPalette"
        and b: "appendRectPrismFor mat r baseZ topZ m (mat_name d) = Some buf"
        and p: "p \<in> set (triples (positions buf))"
        unfolding set_gltf_vertices by blast
      show "p \<in> set (gltf_vertices m) \<union> remap ` box_corners r baseZ topZ"
      proof (cases "mat_name d = mat")
        case True
        with b have "buf = ?new" by (simp add: appendRectPrismFor_def)
        with p n have "(\<exists>buf. m mat = Some buf \<and> p \<in> set (triples (positions buf)))
                       \<or> p \<in> remap ` box_corners r baseZ topZ" by blast
        with d True show ?thesis unfolding set_gltf_vertices by blast
      next
        case False
        with b have "m (mat_name d) = Some buf" by (simp add: appendRectPrismFor_def)
        with d p show ?thesis unfolding set_gltf_vertices by blast
      qed
    next
      assume "p \<in> set (gltf_vertices m) \<union> remap ` box_corners r baseZ topZ"
      then consider (old) "p \<in> set (gltf_vertices m)"
        | (new) "p \<in> remap ` box_corners r baseZ topZ" by blast
      then show "p \<in> set (gltf_vertices (appendRectPrismFor mat r baseZ topZ m))"
      proof cases
        case old
        then obtain d buf where d: "d \<in> set kMaterialPalette"
          and b: "m (mat_name d) = Some buf" and p: "p \<in> set (triples (positions buf))"
          unfolding set_gltf_vertices by blast
        show ?thesis
        proof (cases "mat_name d = mat")
          case True
          with b p n have "p \<in> set (triples (positions ?new))" by blast
          moreover have "appendRectPrismFor mat r baseZ topZ m (mat_name d) = Some ?new"
            using True by (simp add: appendRectPrismFor_def)
          ultimately show ?thesis using d unfolding set_gltf_vertices by blast
        next
          case False
          then have "appendRectPrismFor mat r baseZ topZ m (mat_name d) = Some buf"
            using b by (simp add: appendRectPrismFor_def)
          with d p show ?thesis unfolding set_gltf_vertices by blast
        qed
      next
        case new
        with n have "p \<in> set (triples (positions ?new))" by blast
        moreover have "appendRectPrismFor mat r baseZ topZ m (mat_name d0) = Some ?new"
          using d0 by (simp add: appendRectPrismFor_def)
        ultimately show ?thesis using d0 unfolding set_gltf_vertices by blast
      qed
    qed
  qed
qed

lemma same_vertices_box:
  assumes "same_vertices m st" and "mat \<in> set (map mat_name kMaterialPalette)"
  shows "same_vertices (appendRectPrismFor mat r baseZ topZ m) (writeRectPrism r baseZ topZ st)"
  using assms
  by (simp add: same_vertices_def whole_triples_appendRectPrismFor
        gltf_vertices_appendRectPrismFor obj_vertices_writeRectPrism image_Un)

lemma same_vertices_usemtl: "same_vertices m st \<Longrightarrow> same_vertices m (usemtl n st)"
  by (simp add: same_vertices_def obj_vertices_usemtl)

lemma materialForZone_in_palette: "materialForZone z \<in> set (map mat_name kMaterialPalette)"
  by (cases z) (simp_all add: kMaterialPalette_def)

lemma green_in_palette: "''mat_green'' \<in> set (map mat_name kMaterialPalette)"
  by (simp add: kMaterialPalette_def)

lemma same_vertices_emitStandard:
  "same_vertices m st \<Longrightarrow> same_vertices (emitStandard_gltf b m) (emitStandard_obj b st)"
  unfolding emitStandard_gltf_def emitStandard_obj_def Let_def
  by (intro same_vertices_box materialForZone_in_palette)

lemma same_vertices_emitPark:
  "same_vertices m st \<Longrightarrow> same_vertices (emitPark_gltf fp m) (emitPark_obj fp st)"
  unfolding emitPark_gltf_def emitPark_obj_def Let_def
  by (intro same_vertices_box green_in_palette)

lemma same_vertices_emitSchool:
  "same_vertices m st \<Longrightarrow> same_vertices (emitSchool_gltf b m) (emitSchool_obj b st)"
  unfolding emitSchool_gltf_def emitSchool_obj_def Let_def
  by (intro same_vertices_box materialForZone_in_palette)

lemma same_vertices_emitHospital:
  "same_vertices m st \<Longrightarrow> same_vertices (emitHospital_gltf b m) (emitHospital_obj b st)"
  unfolding emitHospital_gltf_def emitHospital_obj_def Let_def
  by (intro same_vertices_box materialForZone_in_palette)

lemma same_vertices_building:
  assumes "same_vertices m st"
  shows "same_vertices (gltf_building b m) (obj_building b st)"
  unfolding gltf_building_def obj_building_def Let_def
  using assms
  by (auto intro!: same_vertices_emitStandard same_vertices_emitPark same_vertices_emitSchool
        same_vertices_emitHospital same_vertices_usemtl)

lemma same_vertices_fold_building:
  "same_vertices m st \<Longrightarrow> same_vertices (fold gltf_building bs m) (fold obj_building bs st)"
proof (induction bs arbitrary: m st)
  case Nil
  then show ?case by simp
next
  case (Cons b bs)
  from Cons.prems have "same_vertices (gltf_building b m) (obj_building b st)"
    by (rule same_vertices_building)
  then have "same_vertices (fold gltf_building bs (gltf_building b m))
                           (fold obj_building bs (obj_building b st))"
    by (rule Cons.IH)
  then show ?case by simp
qed

lemma same_vertices_init: "same_vertices Map.empty (if hasMtl then [Mtllib n] else [], 1)"
  by (simp add: same_vertices_def whole_triples_empty gltf_vertices_def)

lemma buildings_same_vertices:
  "set (gltf_vertices (fold gltf_building bs Map.empty))
     = remap ` set (obj_vertices (fst (fold obj_building bs (if hasMtl then [Mtllib n] else [], 1))))"
  using same_vertices_fold_building [OF same_vertices_init, of bs hasMtl n]
  by (simp add: same_vertices_def)

subsection \<open>Roads\<close>

lemma sqrt_25: "sqrt 25 = 5"
  by (rule real_sqrt_unique) simp_all

lemma obj_diag:
  "saveOBJ False True ''city.obj'' diagonalRoadCity =
   Some ([Usemtl ''mat_road'',
          V (-0.32) 0.24 0, V 0.32 (-0.24) 0, V 3.32 3.76 0, V 2.68 4.24 0,
          V (-0.32) 0.24 0.05, V 0.32 (-0.24) 0.05, V 3.32 3.76 0.05, V 2.68 4.24 0.05,
          F 1 2 3, F 1 3 4, F 5 8 7, F 5 7 6, F 1 5 6, F 1 6 2,
          F 2 6 7, F 2 7 3, F 3 7 8, F 3 8 4, F 4 8 5, F 4 5 1], 9)"
  by (simp add: saveOBJ_def diagonalRoadCity_def obj_road_def Let_def sqrt_25 kRoadThickness_def)

lemma gltf_diag:
  "set (gltf_vertices (meshByMaterial diagonalRoadCity)) =
     {(-0.32, 0, 0.24), (3.32, 0, 0.24), (3.32, 0, 3.76), (-0.32, 0, 3.76),
      (-0.32, 0.05, 0.24), (3.32, 0.05, 0.24), (3.32, 0.05, 3.76), (-0.32, 0.05, 3.76)}"
  by (simp add: meshByMaterial_def diagonalRoadCity_def gltf_road_def Let_def sqrt_25
        kRoadThickness_def appendRectPrismFor_def bufferFor_def emptyMeshBuffer_def
        appendRectPrism_def rectPrismTriangles_def toGltfCoords_def
        appendTriangle_positions gltf_vertices_def kMaterialPalette_def insert_commute)

text \<open>
  Claim C1, evaluated on the code at a city with the single road segment from \<open>(0, 0)\<close> to
  \<open>(3, 4)\<close> of type Local. The text export writes the oriented box with base corners
  \<open>(-0.32, 0.24)\<close>, \<open>(0.32, -0.24)\<close>, \<open>(3.32, 3.76)\<close>, \<open>(2.68, 4.24)\<close>; the binary export
  stores the axis-aligned box spanned by the first and the third of these corners. The
  two vertex sets differ, so the two exports do not hold the same box for this segment.
\<close>

theorem diagonal_road_boxes_differ:
  "set (map remap (obj_vertices (fst (the (saveOBJ False True ''city.obj'' diagonalRoadCity))))) =
     {(-0.32, 0, 0.24), (0.32, 0, -0.24), (3.32, 0, 3.76), (2.68, 0, 4.24),
      (-0.32, 0.05, 0.24), (0.32, 0.05, -0.24), (3.32, 0.05, 3.76), (2.68, 0.05, 4.24)}
 \<and> set (gltf_vertices (meshByMaterial diagonalRoadCity)) =
     {(-0.32, 0, 0.24), (3.32, 0, 0.24), (3.32, 0, 3.76), (-0.32, 0, 3.76),
      (-0.32, 0.05, 0.24), (3.32, 0.05, 0.24), (3.32, 0.05, 3.76), (-0.32, 0.05, 3.76)}
 \<and> set (map remap (obj_vertices (fst (the (saveOBJ False True ''city.obj'' diagonalRoadCity)))))
     \<noteq> set (gltf_vertices (meshByMaterial diagonalRoadCity))"
proof -
  have a: "set (map remap (obj_vertices (fst (the (saveOBJ False True ''city.obj'' diagonalRoadCity))))) =
     {(-0.32, 0, 0.24), (0.32, 0, -0.24), (3.32, 0, 3.76), (2.68, 0, 4.24),
      (-0.32, 0.05, 0.24), (0.32, 0.05, -0.24), (3.32, 0.05, 3.76), (2.68, 0.05, 4.24)}"
    by (simp add: obj_diag)
  have "(0.32, 0, -0.24) \<in> set (map remap (obj_vertices (fst (the (saveOBJ False True ''city.obj'' diagonalRoadCity)))))"
    by (simp only: a) simp
  moreover have "(0.32, 0, -0.24) \<notin> set (gltf_vertices (meshByMaterial diagonalRoadCity))"
    by (simp only: gltf_diag) simp
  ultimately have "set (map remap (obj_vertices (fst (the (saveOBJ False True ''city.obj'' diagonalRoadCity)))))
     \<noteq> set (gltf_vertices (meshByMaterial diagonalRoadCity))"
    by blast
  with a gltf_diag show ?thesis by blast
qed


section \<open>Worst-case distance to the nearest facility\<close>
























lemma maxDistSchool_step:
  "maxDistSchool (summary_building schools hospitals b s)
     = (if zone b = Residential \<and> schools \<noteq> []
        then max (maxDistSchool s) (nearest (centreX (footprint b)) (centreY (footprint b)) schools)
        else maxDistSchool s)"
  by (simp add: summary_building_def Let_def max_def)

lemma maxDistHospital_step:
  "maxDistHospital (summary_building schools hospitals b s)
     = (if zone b = Residential \<and> hospitals \<noteq> []
        then max (maxDistHospital s) (nearest (centreX (footprint b)) (centreY (footprint b)) hospitals)
        else maxDistHospital s)"
  by (simp add: summary_building_def Let_def max_def)

lemma Max_insert_max:
  "finite S \<Longrightarrow> Max (insert (max m x) S) = Max (insert m (insert (x::real) S))"
  by (cases "S = {}") (auto simp: max.commute max.left_commute max.assoc)

lemma maxDistSchool_fold:
  "maxDistSchool (fold (summary_building schools hospitals) bs s)
     = (if schools = [] then maxDistSchool s
        else Max (insert (maxDistSchool s)
                    ((\<lambda>b. nearest (centreX (footprint b)) (centreY (footprint b)) schools)
                       ` set (filter (\<lambda>b. zone b = Residential) bs))))"
proof (induction bs arbitrary: s)
  case Nil
  then show ?case by simp
next
  case (Cons b bs)
  show ?case
    by (simp add: Cons.IH maxDistSchool_step Max_insert_max)
qed

lemma maxDistHospital_fold:
  "maxDistHospital (fold (summary_building schools hospitals) bs s)
     = (if hospitals = [] then maxDistHospital s
        else Max (insert (maxDistHospital s)
                    ((\<lambda>b. nearest (centreX (footprint b)) (centreY (footprint b)) hospitals)
                       ` set (filter (\<lambda>b. zone b = Residential) bs))))"
proof (induction bs arbitrary: s)
  case Nil
  then show ?case by simp
next
  case (Cons b bs)
  show ?case
    by (simp add: Cons.IH maxDistHospital_step Max_insert_max)
qed

lemma summary_zone_dist [simp]:
  "maxDistSchool (summary_zone z s) = maxDistSchool s"
  "maxDistHospital (summary_zone z s) = maxDistHospital s"
  by (simp_all add: summary_zone_def)

lemma summary_facility_dist [simp]:
  "maxDistSchool (summary_facility f s) = maxDistSchool s"
  "maxDistHospital (summary_facility f s) = maxDistHospital s"
  by (simp_all add: summary_facility_def)

lemma fold_summary_zone_dist [simp]:
  "maxDistSchool (fold summary_zone zs s) = maxDistSchool s"
  "maxDistHospital (fold summary_zone zs s) = maxDistHospital s"
  by (induction zs arbitrary: s) simp_all

lemma fold_summary_facility_dist [simp]:
  "maxDistSchool (fold summary_facility fs s) = maxDistSchool s"
  "maxDistHospital (fold summary_facility fs s) = maxDistHospital s"
  by (induction fs arbitrary: s) simp_all

lemma maxDistSchool_summaryVars:
  "maxDistSchool (summaryVars c)
     = (if schoolPos (facilities c) = [] then - 1
        else Max (insert (- 1)
               ((\<lambda>b. nearest (centreX (footprint b)) (centreY (footprint b)) (schoolPos (facilities c)))
                  ` set (residential c))))"
  by (simp add: summaryVars_def Let_def maxDistSchool_fold residential_def summaryInit_def)

lemma maxDistHospital_summaryVars:
  "maxDistHospital (summaryVars c)
     = (if hospitalPos (facilities c) = [] then - 1
        else Max (insert (- 1)
               ((\<lambda>b. nearest (centreX (footprint b)) (centreY (footprint b)) (hospitalPos (facilities c)))
                  ` set (residential c))))"
  by (simp add: summaryVars_def Let_def maxDistHospital_fold residential_def summaryInit_def)



lemma reported_school:
  "reported True c ''maxDistanceToSchool'' = Some (JReal (maxDistSchool (summaryVars c)))"
  by (simp add: reported_def saveSummary_def Let_def)

lemma reported_hospital:
  "reported True c ''maxDistanceToHospital'' = Some (JReal (maxDistHospital (summaryVars c)))"
  by (simp add: reported_def saveSummary_def Let_def)












text \<open>
  Claim C8. A city without Residential buildings reports \<open>-1\<close> for both distances, also
  when it has schools and hospitals: the value \<open>-1\<close> does not tell the absence of
  facilities from the absence of Residential buildings.
\<close>

theorem no_residential_reports_minus_one:
  assumes "residential c = []"
  shows "reported True c ''maxDistanceToSchool'' = Some (JReal (- 1))
       \<and> reported True c ''maxDistanceToHospital'' = Some (JReal (- 1))"
  using assms
  by (simp add: reported_school reported_hospital maxDistSchool_summaryVars
        maxDistHospital_summaryVars)

theorem no_residential_reports_minus_one_witness:
  "residential officeCity = []
 \<and> schoolPos (facilities officeCity) = [(0.5, 0.5)]
 \<and> hospitalPos (facilities officeCity) = [(1.5, 0.5)]
 \<and> reported True officeCity ''maxDistanceToSchool'' = Some (JReal (- 1))
 \<and> reported True officeCity ''maxDistanceToHospital'' = Some (JReal (- 1))"
proof -
  have r: "residential officeCity = []"
    by (simp add: residential_def officeCity_def)
  have f: "schoolPos (facilities officeCity) = [(0.5, 0.5)]"
          "hospitalPos (facilities officeCity) = [(1.5, 0.5)]"
    by (simp_all add: schoolPos_def hospitalPos_def officeCity_def)
  from r f no_residential_reports_minus_one [OF r] show ?thesis by blast
qed


section \<open>The total-length field of the unified container\<close>

lemma u32_roundtrip: "u32_of_bytes (u32_bytes w) = w"
  unfolding u32_of_bytes_def u32_bytes_def
  apply (rule bit_word_eqI)
  apply (auto simp: bit_simps)
  subgoal for n by (cases "24 \<le> n") auto
  done

lemma pad_arith:
  assumes "(l::nat) mod 4 \<noteq> 0"
  shows "(4 - l mod 4) mod 4 = Suc ((4 - Suc l mod 4) mod 4)"
proof -
  have "l mod 4 < 4" by simp
  with assms consider "l mod 4 = 1" | "l mod 4 = 2" | "l mod 4 = 3" by linarith
  then show ?thesis
    by cases (simp_all add: mod_Suc)
qed

lemma pad_to4_padded: "pad_to4 c v = padded c v"
proof (induction c v rule: pad_to4.induct)
  case (1 c v)
  show ?case
  proof (cases "length v mod 4 = 0")
    case True
    then show ?thesis by (simp add: pad_to4.simps [of c v] padded_def)
  next
    case False
    have "pad_to4 c v = pad_to4 c (v @ [c])"
      using False by (simp add: pad_to4.simps [of c v])
    also have "\<dots> = padded c (v @ [c])"
      using False by (rule "1.IH")
    also have "\<dots> = padded c v"
      by (simp add: padded_def pad_arith [OF False] replicate_append_same)
    finally show ?thesis .
  qed
qed

lemma length_padded: "length (padded c v) = length v + (4 - length v mod 4) mod 4"
  by (simp add: padded_def)

lemma mod4_pad: "((l::nat) + (4 - l mod 4) mod 4) mod 4 = 0"
proof -
  have "l mod 4 < 4" by simp
  then consider "l mod 4 = 0" | "l mod 4 = 1" | "l mod 4 = 2" | "l mod 4 = 3"
    by linarith
  then show ?thesis
  proof cases
    case 1
    then show ?thesis by simp
  next
    case 2
    have "(l + 3) mod 4 = (l mod 4 + 3) mod 4" by (simp only: mod_add_left_eq)
    with 2 show ?thesis by simp
  next
    case 3
    have "(l + 2) mod 4 = (l mod 4 + 2) mod 4" by (simp only: mod_add_left_eq)
    with 3 show ?thesis by simp
  next
    case 4
    have "(l + 1) mod 4 = (l mod 4 + 1) mod 4" by (simp only: mod_add_left_eq)
    with 4 show ?thesis by simp
  qed
qed

lemma padded_aligned: "length (padded c v) mod 4 = 0"
  by (simp only: length_padded mod4_pad)

lemma length_u32_bytes: "length (u32_bytes w) = 4"
  by (simp add: u32_bytes_def)


lemma saveGLTF_binary_layout:
  "saveGLTF_binary True json binData =
     Some (map of_char ''glTF'' @ u32_bytes 2
           @ u32_bytes (word_of_nat (12 + 8 + length (padded 0x20 (map of_char json))
                                       + 8 + length (padded 0 binData)))
           @ u32_bytes (word_of_nat (length (padded 0x20 (map of_char json))))
           @ u32_bytes 0x4E4F534A @ padded 0x20 (map of_char json)
           @ u32_bytes (word_of_nat (length (padded 0 binData)))
           @ u32_bytes 0x004E4942 @ padded 0 binData)"
  by (simp add: saveGLTF_binary_def Let_def align4_def pad_to4_padded)


lemma take4_u32: "take 4 (u32_bytes w @ rest) = u32_bytes w"
  by (simp add: length_u32_bytes)

lemma header_fields:
  assumes "out = map of_char ''glTF'' @ u32_bytes v @ u32_bytes t @ rest"
  shows "glb_version out = v" and "glb_totalLength out = t"
  using assms
  by (simp_all add: glb_version_def glb_totalLength_def length_u32_bytes take4_u32 u32_roundtrip)

lemma length_layout:
  "length (map of_char ''glTF'' @ u32_bytes a @ u32_bytes b @ u32_bytes c @ u32_bytes d @ js
           @ u32_bytes e @ u32_bytes f @ bs) = 12 + 8 + length js + 8 + length bs"
  by (simp add: length_u32_bytes)

lemma length_saveGLTF_binary:
  "length (the (saveGLTF_binary True json binData))
     = 12 + 8 + length (padded 0x20 (map of_char json)) + 8 + length (padded 0 binData)"
  by (simp only: saveGLTF_binary_layout option.sel length_layout)

lemma totalLength_saveGLTF_binary:
  "glb_totalLength (the (saveGLTF_binary True json binData))
     = word_of_nat (12 + 8 + length (padded 0x20 (map of_char json)) + 8 + length (padded 0 binData))"
  by (simp only: saveGLTF_binary_layout option.sel header_fields(2) [OF refl])

lemma replicate_small:
  "replicate 1 x = [x]" "replicate 2 x = [x, x]" "replicate 3 x = [x, x, x]"
  by (simp_all add: numeral_2_eq_2 numeral_3_eq_3)

lemma glb_sample:
  "saveGLTF_binary True ''{\"a\":1}'' [1, 2, 3, 4, 5] =
     Some [0x67, 0x6C, 0x54, 0x46, 2, 0, 0, 0, 44, 0, 0, 0,
           8, 0, 0, 0, 0x4A, 0x53, 0x4F, 0x4E,
           0x7B, 0x22, 0x61, 0x22, 0x3A, 0x31, 0x7D, 0x20,
           8, 0, 0, 0, 0x42, 0x49, 0x4E, 0,
           1, 2, 3, 4, 5, 0, 0, 0]"
  by (simp add: saveGLTF_binary_layout padded_def u32_bytes_def replicate_small)

text \<open>
  Claim C4, as the code has it. When the output stream opens, the file is the magic tag,
  the version 2, the total-length field, the JSON chunk (length, type tag, the JSON text
  padded with spaces to a multiple of 4 bytes) and the binary chunk (length, type tag,
  the buffer padded with zero bytes to a multiple of 4 bytes). The file has
  \<open>12 + 8 + padded JSON length + 8 + padded binary length\<close> bytes, and the total-length field
  holds this number reduced modulo \<open>2\<^sup>3\<^sup>2\<close>, since it is computed in \<^verbatim>\<open>std::uint32_t\<close>: it
  equals the number of bytes of the file whenever that is below \<open>2\<^sup>3\<^sup>2\<close>.
\<close>

theorem glb_total_length:
  "\<exists>jsonBytes bin out.
      saveGLTF_binary True json binData = Some out
    \<and> jsonBytes = map of_char json @ replicate ((4 - length json mod 4) mod 4) 0x20
    \<and> bin = binData @ replicate ((4 - length binData mod 4) mod 4) 0
    \<and> length jsonBytes mod 4 = 0 \<and> length bin mod 4 = 0
    \<and> out = map of_char ''glTF'' @ u32_bytes 2
            @ u32_bytes (word_of_nat (12 + 8 + length jsonBytes + 8 + length bin))
            @ u32_bytes (word_of_nat (length jsonBytes)) @ u32_bytes 0x4E4F534A @ jsonBytes
            @ u32_bytes (word_of_nat (length bin)) @ u32_bytes 0x004E4942 @ bin
    \<and> length out = 12 + 8 + length jsonBytes + 8 + length bin
    \<and> glb_version out = 2
    \<and> glb_totalLength out = word_of_nat (length out)
    \<and> (length out < 2 ^ 32 \<longrightarrow> unat (glb_totalLength out) = length out)"
proof -
  define jsonBytes where "jsonBytes = padded 0x20 (map of_char json)"
  define bin where "bin = padded 0 binData"
  define out where "out = map of_char ''glTF'' @ u32_bytes 2
            @ u32_bytes (word_of_nat (12 + 8 + length jsonBytes + 8 + length bin))
            @ u32_bytes (word_of_nat (length jsonBytes)) @ u32_bytes 0x4E4F534A @ jsonBytes
            @ u32_bytes (word_of_nat (length bin)) @ u32_bytes 0x004E4942 @ bin"
  have s: "saveGLTF_binary True json binData = Some out"
    unfolding out_def jsonBytes_def bin_def by (rule saveGLTF_binary_layout)
  have j: "jsonBytes = map of_char json @ replicate ((4 - length json mod 4) mod 4) 0x20"
    by (simp add: jsonBytes_def padded_def)
  have b: "bin = binData @ replicate ((4 - length binData mod 4) mod 4) 0"
    by (simp add: bin_def padded_def)
  have a: "length jsonBytes mod 4 = 0" "length bin mod 4 = 0"
    by (simp_all only: jsonBytes_def bin_def padded_aligned)
  have l: "length out = 12 + 8 + length jsonBytes + 8 + length bin"
    unfolding out_def by (rule length_layout)
  have v: "glb_version out = 2"
    by (rule header_fields(1) [OF out_def])
  have t: "glb_totalLength out = word_of_nat (length out)"
    by (simp only: header_fields(2) [OF out_def] l)
  have u: "length out < 2 ^ 32 \<longrightarrow> unat (glb_totalLength out) = length out"
    by (simp add: t unat_of_nat)
  show ?thesis
    by (intro exI [of _ jsonBytes] exI [of _ bin] exI [of _ out] conjI)
       (rule s j b a l v t u out_def)+
qed



theorem glb_total_length_witness:
  "length (the (saveGLTF_binary True ''{\"a\":1}'' [1, 2, 3, 4, 5])) < 2 ^ 32
 \<and> saveGLTF_binary True ''{\"a\":1}'' [1, 2, 3, 4, 5] =
     Some [0x67, 0x6C, 0x54, 0x46, 2, 0, 0, 0, 44, 0, 0, 0,
           8, 0, 0, 0, 0x4A, 0x53, 0x4F, 0x4E,
           0x7B, 0x22, 0x61, 0x22, 0x3A, 0x31, 0x7D, 0x20,
           8, 0, 0, 0, 0x42, 0x49, 0x4E, 0,
           1, 2, 3, 4, 5, 0, 0, 0]
 \<and> unat (glb_totalLength (the (saveGLTF_binary True ''{\"a\":1}'' [1, 2, 3, 4, 5]))) = 44"
proof -
  from glb_total_length [of "''{\"a\":1}''" "[1, 2, 3, 4, 5]"]
  obtain out where
    s: "saveGLTF_binary True ''{\"a\":1}'' [1, 2, 3, 4, 5] = Some out"
    and u: "length out < 2 ^ 32 \<longrightarrow> unat (glb_totalLength out) = length out"
    by (elim exE conjE) (rule that)
  from s have o: "out = the (saveGLTF_binary True ''{\"a\":1}'' [1, 2, 3, 4, 5])" by simp
  have l: "length (the (saveGLTF_binary True ''{\"a\":1}'' [1, 2, 3, 4, 5])) = 44"
    by (simp add: glb_sample)
  from u have "unat (glb_totalLength (the (saveGLTF_binary True ''{\"a\":1}'' [1, 2, 3, 4, 5]))) = 44"
    unfolding o l by simp
  with l glb_sample show ?thesis by simp
qed

text \<open>
  The claim as stated, for every input, fails when the file reaches \<open>2\<^sup>3\<^sup>2\<close> bytes: with a
  packed buffer of \<open>2\<^sup>3\<^sup>2\<close> bytes (about 4.3 million boxes of 1008 bytes each) and a JSON
  text of 2 characters the file has 4294967328 bytes and the field holds 32.
\<close>

theorem glb_total_length_overflow_counterexample:
  "length (the (saveGLTF_binary True ''{}'' (replicate 4294967296 0))) = 4294967328
 \<and> unat (glb_totalLength (the (saveGLTF_binary True ''{}'' (replicate 4294967296 0)))) = 32
 \<and> unat (glb_totalLength (the (saveGLTF_binary True ''{}'' (replicate 4294967296 0))))
     \<noteq> length (the (saveGLTF_binary True ''{}'' (replicate 4294967296 0)))"
proof -
  have a: "length (the (saveGLTF_binary True ''{}'' (replicate 4294967296 0))) = 4294967328"
    by (simp add: length_saveGLTF_binary length_padded)
  have b: "unat (glb_totalLength (the (saveGLTF_binary True ''{}'' (replicate 4294967296 0)))) = 32"
    by (simp add: totalLength_saveGLTF_binary length_padded unat_of_nat)
  from a b show ?thesis by simp
qed



end
